theory Spec2Isabelle
  imports Complex_Main "HOL-Library.Sublist"
begin

section \<open>The challenge watcher (class CaptchaWatcher)\<close>

text \<open>
  The object the challenge-frame detector reads out of the page on a fully loaded grid.
  The field \<open>text\<close> of the source is called \<open>challengeText\<close> here. \<open>imageUrls\<close> is
  optional: the change test guards against a missing list on either side.
\<close>

record challengeInfo =
  challengeText :: string
  promptText :: string
  hasCorrectFormat :: bool
  isDynamic :: bool
  gridType :: string
  imageUrls :: "string list option"

text \<open>
  The fields of the watcher. Frames, pages and element handles are opaque identifiers;
  \<open>None\<close> is JavaScript's \<open>null\<close>.
\<close>

record captchaWatcher =
  page :: "nat option"
  isWatching :: bool
  currentChallengeText :: "string option"
  currentCaptchaFrame :: "nat option"
  currentChallengeFrame :: "nat option"
  currentImageUrls :: "string list option"
  currentCheckbox :: "nat option"

text \<open>The callbacks a watcher can fire, with their payload.\<close>

datatype event =
    CaptchaReady nat
  | TilesReady challengeInfo nat
  | ChallengeOpen challengeInfo nat
  | ChallengeChange challengeInfo nat
  | TokenFound string

definition newWatcher :: captchaWatcher where
  "newWatcher = \<lparr> page = None, isWatching = False, currentChallengeText = None,
     currentCaptchaFrame = None, currentChallengeFrame = None, currentImageUrls = None,
     currentCheckbox = None \<rparr>"

text \<open>
  \<open>_checkIfChallengeChanged\<close>: the strict comparison of the stored text with the new one,
  the guard on a missing list, the comparison of the lengths, and \<open>some\<close> over the
  stored list with its index.
\<close>

definition checkIfChallengeChanged :: "captchaWatcher \<Rightarrow> challengeInfo \<Rightarrow> bool" where
  "checkIfChallengeChanged w newInfo =
     (if currentChallengeText w \<noteq> Some (challengeText newInfo) then True
      else case currentImageUrls w of
        None \<Rightarrow> True
      | Some cur \<Rightarrow>
          (case imageUrls newInfo of
             None \<Rightarrow> True
           | Some new \<Rightarrow>
               if length cur \<noteq> length new then True
               else list_ex (\<lambda>(index, url). url \<noteq> new ! index) (enumerate 0 cur)))"

definition updateCurrentChallenge :: "captchaWatcher \<Rightarrow> challengeInfo \<Rightarrow> captchaWatcher" where
  "updateCurrentChallenge w info =
     w\<lparr> currentChallengeText := Some (challengeText info),
        currentImageUrls := imageUrls info \<rparr>"

text \<open>JavaScript truthiness of a string or \<open>null\<close>: \<open>null\<close> and the empty string are falsy.\<close>

definition truthy :: "string option \<Rightarrow> bool" where
  "truthy s = (case s of None \<Rightarrow> False | Some t \<Rightarrow> t \<noteq> [])"

text \<open>
  The body of the challenge-frame detector once a read has returned a challenge
  (\<open>if (challengeInfo) { ... }\<close> in \<open>_pollForChallengeFrame\<close>): it stores the frame,
  fires \<open>onTilesReady\<close>, computes the change test, and then fires \<open>onChallengeOpen\<close> when
  the stored text is falsy, \<open>onChallengeChange\<close> when the test says changed. The result
  is the new watcher and the callbacks fired, in order.
\<close>

definition onChallengeInfo ::
  "captchaWatcher \<Rightarrow> nat \<Rightarrow> challengeInfo \<Rightarrow> captchaWatcher \<times> event list" where
  "onChallengeInfo w challengeFrame info =
     (let w1 = w\<lparr> currentChallengeFrame := Some challengeFrame \<rparr>;
          hasChanged = checkIfChallengeChanged w1 info
      in if \<not> truthy (currentChallengeText w1)
         then (updateCurrentChallenge w1 info,
               [TilesReady info challengeFrame, ChallengeOpen info challengeFrame])
         else if hasChanged
         then (updateCurrentChallenge w1 info,
               [TilesReady info challengeFrame, ChallengeChange info challengeFrame])
         else (w1, [TilesReady info challengeFrame]))"


section \<open>JavaScript strings and numbers\<close>

text \<open>\<open>String.prototype.includes\<close>: the argument occurs as a contiguous substring.\<close>

fun js_includes :: "string \<Rightarrow> string \<Rightarrow> bool" where
  "js_includes [] sub = (sub = [])"
| "js_includes (c # cs) sub = (prefix sub (c # cs) \<or> js_includes cs sub)"

text \<open>
  \<open>String.prototype.split\<close> with a non-empty separator: the pieces between the
  non-overlapping occurrences of the separator, found from the left. The counter is the
  number of characters of a matched separator still to be passed over.
\<close>

fun js_split_from :: "string \<Rightarrow> nat \<Rightarrow> string \<Rightarrow> string list" where
  "js_split_from sep skip [] = [[]]"
| "js_split_from sep skip (c # cs) =
     (if 0 < skip then js_split_from sep (skip - 1) cs
      else if prefix sep (c # cs) then [] # js_split_from sep (length sep - 1) cs
      else (case js_split_from sep 0 cs of
              [] \<Rightarrow> [[c]]
            | piece # pieces \<Rightarrow> (c # piece) # pieces))"

definition js_split :: "string \<Rightarrow> string \<Rightarrow> string list" where
  "js_split sep s = js_split_from sep 0 s"

text \<open>
  \<open>String.prototype.substring(start, end)\<close>: both indices are clamped to the string and
  swapped when the first is the larger one.
\<close>

definition js_substring :: "string \<Rightarrow> int \<Rightarrow> int \<Rightarrow> string" where
  "js_substring s a b =
     (let n = int (length s);
          a' = max 0 (min a n);
          b' = max 0 (min b n);
          lo = min a' b';
          hi = max a' b'
      in take (nat (hi - lo)) (drop (nat lo) s))"

text \<open>White space as \<open>trim\<close> and \<open>Number\<close> strip it (the ASCII part of it).\<close>

definition js_space :: "char \<Rightarrow> bool" where
  "js_space c = (c \<in> set [CHR '' '', CHR 0x09, CHR 0x0A, CHR 0x0B, CHR 0x0C, CHR 0x0D])"

definition js_trim :: "string \<Rightarrow> string" where
  "js_trim s = rev (dropWhile js_space (rev (dropWhile js_space s)))"

definition is_digit :: "char \<Rightarrow> bool" where
  "is_digit c = (c \<in> set ''0123456789'')"

definition digit_value :: "char \<Rightarrow> int" where
  "digit_value c = int (of_char c) - 48"

definition decimal :: "string \<Rightarrow> int" where
  "decimal ds = foldl (\<lambda>acc c. 10 * acc + digit_value c) 0 ds"

text \<open>
  \<open>Number(s)\<close> on the strings the tile coordinates are made of: white space is stripped,
  the empty string is 0, an optionally signed run of decimal digits is its value, and
  \<open>None\<close> is \<open>NaN\<close>. Fractions, exponents and radix prefixes are numeric literals of
  JavaScript that this function does not read; no coordinate of the grid is written so.
\<close>

definition js_Number :: "string \<Rightarrow> int option" where
  "js_Number s =
     (case js_trim s of
        [] \<Rightarrow> Some 0
      | c # ds \<Rightarrow>
          if (c = CHR ''-'' \<or> c = CHR ''+'') \<and> ds \<noteq> [] \<and> list_all is_digit ds
          then Some (if c = CHR ''-'' then - decimal ds else decimal ds)
          else if list_all is_digit (c # ds) then Some (decimal (c # ds))
          else None)"

section \<open>The detectors of the watcher\<close>


text \<open>
  A detector is a loop that reads the page every 100 ms for as long as the watching
  flag is set. It is run here over the list of what the successive reads find (one
  element per 100 ms wait), and it returns the callbacks it fired and whether it is
  still polling when the list ends. The flag is set and cleared by other code while the
  detector sleeps, so every element carries the value the flag has at that time.
\<close>











section \<open>The polling loops of the audio solver\<close>





section \<open>Clicking a tile (clickTile)\<close>

text \<open>
  What the page shows when \<open>frame.evaluate\<close> runs: the number of elements of class
  \<open>rc-imageselect-tile\<close>, and whether the call is rejected (a destroyed context, or a
  \<open>null\<close> frame, whose \<open>TypeError\<close> is caught by the same handler).
\<close>

record click_env =
  tileCount :: nat
  evaluateRejects :: bool

text \<open>
  The index computed in the page. \<open>None\<close> is \<open>NaN\<close>: a coordinate with fewer than two
  parts leaves \<open>col\<close> undefined, and a part that is not a number is \<open>NaN\<close>. The grid
  type of the challenge is passed into the page with the coordinate and never read.
\<close>

definition tileIndex :: "nat \<Rightarrow> string \<Rightarrow> string \<Rightarrow> int option" where
  "tileIndex nTiles coord declaredGridType =
     (let gridSize = (if nTiles = 9 then 3 else 4) in
      case map js_Number (js_split '','' (js_substring coord 1 (int (length coord) - 1))) of
        Some row # Some col # _ \<Rightarrow> Some ((row - 1) * gridSize + (col - 1))
      | _ \<Rightarrow> None)"

text \<open>
  \<open>clickTile\<close> returns whether a tile was clicked, and the model adds the list of the
  tile indices clicked. \<open>tiles[index]\<close> is an element exactly when the index is an
  integer from 0 up to the number of tiles.
\<close>

definition clickTile :: "click_env \<Rightarrow> string \<Rightarrow> challengeInfo \<Rightarrow> bool \<times> nat list" where
  "clickTile env coord info =
     (if evaluateRejects env then (False, [])
      else case tileIndex (tileCount env) coord (gridType info) of
        None \<Rightarrow> (False, [])
      | Some index \<Rightarrow>
          if 0 \<le> index \<and> index < int (tileCount env) then (True, [nat index])
          else (False, []))"


section \<open>The tile analyzer (analyzeWithGemini)\<close>

text \<open>
  The values \<open>JSON.parse\<close> returns. An object is the list of its own properties in the
  order \<open>Object.entries\<close> lists them; a parsed object has no key twice.
\<close>

datatype json =
    JNull
  | JBool bool
  | JNumber rat
  | JString string
  | JArray "json list"
  | JObject "(string \<times> json) list"

fun js_truthy :: "json \<Rightarrow> bool" where
  "js_truthy JNull = False"
| "js_truthy (JBool b) = b"
| "js_truthy (JNumber n) = (n \<noteq> 0)"
| "js_truthy (JString s) = (s \<noteq> [])"
| "js_truthy (JArray xs) = True"
| "js_truthy (JObject kvs) = True"

text \<open>The decimal numeral of an array index, as a property key.\<close>

fun indexKey :: "nat \<Rightarrow> string" where
  "indexKey n =
     (if n < 10 then [char_of (48 + n)]
      else indexKey (n div 10) @ [char_of (48 + n mod 10)])"

text \<open>
  \<open>Object.entries\<close>: a \<open>TypeError\<close> (\<open>None\<close>) on \<open>null\<close>, nothing for a boolean or a
  number, the indexed characters of a string, the indexed elements of an array, the
  properties of an object.
\<close>

definition objectEntries :: "json \<Rightarrow> (string \<times> json) list option" where
  "objectEntries v =
     (case v of
        JNull \<Rightarrow> None
      | JBool b \<Rightarrow> Some []
      | JNumber n \<Rightarrow> Some []
      | JString s \<Rightarrow> Some (map (\<lambda>(i, c). (indexKey i, JString [c])) (enumerate 0 s))
      | JArray xs \<Rightarrow> Some (map (\<lambda>(i, x). (indexKey i, x)) (enumerate 0 xs))
      | JObject kvs \<Rightarrow> Some kvs)"

text \<open>
  The filter \<open>([_, data]) => data.has_match\<close>: reading a property of \<open>null\<close> is a
  \<open>TypeError\<close> (\<open>None\<close>); on any other value that is not an object with the property the
  read is \<open>undefined\<close>, which is falsy.
\<close>

definition has_match :: "json \<Rightarrow> bool option" where
  "has_match data =
     (case data of
        JNull \<Rightarrow> None
      | JObject kvs \<Rightarrow>
          Some (case map_of kvs ''has_match'' of None \<Rightarrow> False | Some v \<Rightarrow> js_truthy v)
      | _ \<Rightarrow> Some False)"

fun filterMatches :: "(string \<times> json) list \<Rightarrow> string list option" where
  "filterMatches [] = Some []"
| "filterMatches ((coord, data) # rest) =
     (case has_match data of
        None \<Rightarrow> None
      | Some b \<Rightarrow>
          (case filterMatches rest of
             None \<Rightarrow> None
           | Some coords \<Rightarrow> Some (if b then coord # coords else coords)))"

text \<open>
  The clean-up of the response: the text between a fence opening with \<open>json\<close> (or, failing
  that, a bare fence) and the next fence, trimmed; the whole response when it has no
  fence. Indexing a missing piece is a \<open>TypeError\<close> (\<open>None\<close>).
\<close>

definition fence :: string where
  "fence = replicate 3 (CHR 0x60)"

definition betweenFences :: "string \<Rightarrow> string \<Rightarrow> string option" where
  "betweenFences opening response =
     (case js_split opening response of
        _ # second # _ \<Rightarrow>
          (case js_split fence second of
             [] \<Rightarrow> None
           | first # _ \<Rightarrow> Some (js_trim first))
      | _ \<Rightarrow> None)"

definition extractJson :: "string \<Rightarrow> string option" where
  "extractJson response =
     (if js_includes response (fence @ ''json'') then betweenFences (fence @ ''json'') response
      else if js_includes response fence then betweenFences fence response
      else Some response)"

text \<open>
  The outside of one analysis: whether the screenshot file is read, the text the vision
  model answers (\<open>None\<close> when the call or the reading of its text is rejected), and
  \<open>JSON.parse\<close> (\<open>None\<close> is its \<open>SyntaxError\<close>). The prompt and the grid type only shape
  the instruction sent to the model. The result \<open>None\<close> is \<open>null\<close>, returned by the
  handler of every error.
\<close>

record gemini_env =
  readFile :: bool
  geminiResponse :: "string option"
  jsonParse :: "string \<Rightarrow> json option"

definition analyzeWithGemini :: "gemini_env \<Rightarrow> string list option" where
  "analyzeWithGemini env =
     (if \<not> readFile env then None
      else case geminiResponse env of
        None \<Rightarrow> None
      | Some response \<Rightarrow>
          (case extractJson response of
             None \<Rightarrow> None
           | Some jsonStr \<Rightarrow>
               (case jsonParse env jsonStr of
                  None \<Rightarrow> None
                | Some jsonResponse \<Rightarrow>
                    (case objectEntries jsonResponse of
                       None \<Rightarrow> None
                     | Some entries \<Rightarrow> filterMatches entries))))"

section \<open>What the solver does to the page and to the services\<close>

text \<open>
  The solving functions return their result together with the list of the things they
  did, in order. \<open>RoundStart\<close> and \<open>AudioAttempt\<close> mark the start of an iteration of the
  visual and of the audio loop. Delays are recorded for the audio download only.
\<close>

datatype action =
    ClickCheckbox
  | RoundStart
  | ClickReload
  | Screenshot
  | Analyze
  | ClickTile nat
  | ClickVerify
  | Cleanup
  | AudioAttempt
  | ClickAudioButton
  | Download
  | Sleep nat
  | Transcribe
  | TypeResponse string

section \<open>The audio transcriber (downloadAndTranscribeAudio)\<close>

datatype download = TransportError | Response nat string

text \<open>
  The download loop. \<open>Break\<close> leaves the loop with the data, \<open>ReturnNull\<close> is the
  \<open>return null\<close> of the handler on the last attempt, and \<open>LoopEnd\<close> is the loop condition
  failing with no data stored. The \<open>k\<close>-th call of \<open>axios.get\<close> is answered by
  \<open>downloads k\<close>.
\<close>

datatype download_exit = Break string | ReturnNull | LoopEnd

definition maxDownloadAttempts :: nat where
  "maxDownloadAttempts = 3"

function downloadLoop :: "(nat \<Rightarrow> download) \<Rightarrow> nat \<Rightarrow> download_exit \<times> action list" where
  "downloadLoop downloads downloadAttempts =
     (if downloadAttempts < maxDownloadAttempts then
        (case downloads downloadAttempts of
           Response status body \<Rightarrow>
             if status \<noteq> 200 then
               (if downloadAttempts + 1 = maxDownloadAttempts then (ReturnNull, [Download])
                else (case downloadLoop downloads (downloadAttempts + 1) of
                        (r, tr) \<Rightarrow> (r, Download # Sleep 1000 # tr)))
             else (Break body, [Download])
         | TransportError \<Rightarrow>
             (if downloadAttempts + 1 = maxDownloadAttempts then (ReturnNull, [Download])
              else (case downloadLoop downloads (downloadAttempts + 1) of
                      (r, tr) \<Rightarrow> (r, Download # Sleep 1000 # tr))))
      else (LoopEnd, []))"
  by pat_completeness auto
termination
  by (relation "measure (\<lambda>(downloads, n). maxDownloadAttempts - n)") auto

declare downloadLoop.simps [simp del]

text \<open>
  The regular expression \<open>/"text":\s*"([^"]+)"/g\<close>: a match at the head of a string, as
  the captured group and the length of the match, and the groups of all the matches
  from the left. No step of the expression can match in two ways, so there is no
  backtracking to model.
\<close>

definition textKey :: string where
  "textKey = CHR 0x22 # ''text'' @ [CHR 0x22, CHR '':'']"

definition textMatchAt :: "string \<Rightarrow> (string \<times> nat) option" where
  "textMatchAt s =
     (if prefix textKey s then
        (let afterKey = drop (length textKey) s;
             spaces = takeWhile js_space afterKey
         in case dropWhile js_space afterKey of
              [] \<Rightarrow> None
            | q # afterQuote \<Rightarrow>
                if q \<noteq> CHR 0x22 then None
                else (let captured = takeWhile (\<lambda>c. c \<noteq> CHR 0x22) afterQuote in
                      if captured \<noteq> [] \<and> dropWhile (\<lambda>c. c \<noteq> CHR 0x22) afterQuote \<noteq> []
                      then Some (captured, length textKey + length spaces + length captured + 2)
                      else None))
      else None)"

fun textMatchesFrom :: "nat \<Rightarrow> string \<Rightarrow> string list" where
  "textMatchesFrom skip [] = []"
| "textMatchesFrom skip (c # cs) =
     (if 0 < skip then textMatchesFrom (skip - 1) cs
      else case textMatchAt (c # cs) of
             None \<Rightarrow> textMatchesFrom 0 cs
           | Some (captured, n) \<Rightarrow> captured # textMatchesFrom (n - 1) cs)"

text \<open>
  The services of one call: the answers to the downloads, and the whole body of the
  answer of the speech service (\<open>None\<close> when the request or the reading of its body is
  rejected). The key is drawn at random from the configured ones and changes nothing
  below.
\<close>

record audio_env =
  downloads :: "nat \<Rightarrow> download"
  witResponse :: "string option"

text \<open>The last match in the body, or \<open>null\<close> when there is none.\<close>

definition lastTextMatch :: "string \<Rightarrow> string option" where
  "lastTextMatch fullResponse =
     (case textMatchesFrom 0 fullResponse of
        [] \<Rightarrow> None
      | m # ms \<Rightarrow> Some (last (m # ms)))"

definition downloadAndTranscribeAudio :: "audio_env \<Rightarrow> string option \<times> action list" where
  "downloadAndTranscribeAudio env =
     (case downloadLoop (downloads env) 0 of
        (ReturnNull, tr) \<Rightarrow> (None, tr)
      | (_, tr) \<Rightarrow>
          (case witResponse env of
             None \<Rightarrow> (None, tr @ [Transcribe])
           | Some fullResponse \<Rightarrow> (lastTextMatch fullResponse, tr @ [Transcribe])))"

text \<open>A download fails on a transport error and on a status other than 200.\<close>

definition downloadFails :: "download \<Rightarrow> bool" where
  "downloadFails d = (case d of TransportError \<Rightarrow> True | Response status body \<Rightarrow> status \<noteq> 200)"


section \<open>The visual solver: tiles\<close>

text \<open>A solving function either throws or returns a value.\<close>

datatype 'a outcome = Thrown | Value 'a

text \<open>
  \<open>takeScreenshotAndAnalyze\<close>: a rejected call (making the directory, finding the
  challenge area in a frame that may be \<open>null\<close>, taking the screenshot) throws; a
  missing challenge area returns \<open>null\<close>; otherwise the screenshot is analyzed. The wait
  for tiles inside it goes on to the screenshot whether the tiles get ready or the ten
  seconds pass.
\<close>

datatype shot_outcome = ShotRejects | NoChallengeArea | ShotTaken

text \<open>
  One pass of the loop of \<open>handleChallengeTiles\<close> as the outside decides it: whether the
  tiles get ready within ten seconds, the screenshot, the analysis, and the page at each
  click of the pass.
\<close>

record tiles_round =
  tilesReady :: bool
  shot :: shot_outcome
  gemini :: gemini_env
  clicks :: "nat \<Rightarrow> click_env"

definition takeScreenshotAndAnalyze :: "tiles_round \<Rightarrow> string list option outcome \<times> action list" where
  "takeScreenshotAndAnalyze r =
     (case shot r of
        ShotRejects \<Rightarrow> (Thrown, [])
      | NoChallengeArea \<Rightarrow> (Value None, [])
      | ShotTaken \<Rightarrow> (Value (analyzeWithGemini (gemini r)), [Screenshot, Analyze]))"

text \<open>The loop over the tiles to click: it stops at the first tile that is not clicked.\<close>

fun clickTiles ::
  "(nat \<Rightarrow> click_env) \<Rightarrow> challengeInfo \<Rightarrow> nat \<Rightarrow> string list \<Rightarrow> bool \<times> action list" where
  "clickTiles envs info i [] = (True, [])"
| "clickTiles envs info i (coord # coords) =
     (case clickTile (envs i) coord info of
        (clicked, indices) \<Rightarrow>
          if \<not> clicked then (False, map ClickTile indices)
          else (case clickTiles envs info (i + 1) coords of
                  (ok, tr) \<Rightarrow> (ok, map ClickTile indices @ tr)))"

definition maxDynamicIterations :: nat where
  "maxDynamicIterations = 4"

function handleChallengeTiles_from ::
  "challengeInfo \<Rightarrow> (nat \<Rightarrow> tiles_round) \<Rightarrow> nat \<Rightarrow> bool outcome \<times> action list" where
  "handleChallengeTiles_from info rounds dynamicIteration =
     (let r = rounds dynamicIteration in
      if \<not> tilesReady r then (Value False, [])
      else case takeScreenshotAndAnalyze r of
        (Thrown, tr) \<Rightarrow> (Thrown, tr)
      | (Value None, tr) \<Rightarrow> (Value False, tr)
      | (Value (Some tilesToClick), tr) \<Rightarrow>
          if tilesToClick = [] then (Value True, tr)
          else (case clickTiles (clicks r) info 0 tilesToClick of
                  (clicked, tr2) \<Rightarrow>
                    if \<not> clicked then (Value False, tr @ tr2)
                    else if \<not> isDynamic info then (Value True, tr @ tr2)
                    else if dynamicIteration + 1 \<ge> maxDynamicIterations
                    then (Value True, tr @ tr2)
                    else (case handleChallengeTiles_from info rounds (dynamicIteration + 1) of
                            (res, tr3) \<Rightarrow> (res, tr @ tr2 @ tr3))))"
  by pat_completeness auto
termination
  by (relation "measure (\<lambda>(info, rounds, n). maxDynamicIterations - n)") auto

declare handleChallengeTiles_from.simps [simp del]

definition handleChallengeTiles ::
  "challengeInfo \<Rightarrow> (nat \<Rightarrow> tiles_round) \<Rightarrow> bool outcome \<times> action list" where
  "handleChallengeTiles info rounds = handleChallengeTiles_from info rounds 0"

section \<open>The visual solver: rounds and verification\<close>

text \<open>
  \<open>refreshChallenge\<close> and \<open>getCurrentChallenge\<close>, by what the frame answers: a rejected
  call throws, a missing reload button is passed by, a missing frame or prompt and a
  prompt of the wrong format give \<open>null\<close> (the last two after a refresh).
\<close>

datatype refresh_outcome = RefreshRejects | NoReloadButton | Reloaded

definition refreshChallenge :: "refresh_outcome \<Rightarrow> unit outcome \<times> action list" where
  "refreshChallenge r =
     (case r of
        RefreshRejects \<Rightarrow> (Thrown, [])
      | NoReloadButton \<Rightarrow> (Value (), [])
      | Reloaded \<Rightarrow> (Value (), [ClickReload]))"

datatype current_outcome = NoFrame | CurrentRejects | NoPrompt | Current challengeInfo

definition getCurrentChallenge ::
  "current_outcome \<Rightarrow> refresh_outcome \<Rightarrow> challengeInfo option outcome \<times> action list" where
  "getCurrentChallenge cur refresh =
     (case cur of
        NoFrame \<Rightarrow> (Value None, [])
      | CurrentRejects \<Rightarrow> (Thrown, [])
      | NoPrompt \<Rightarrow>
          (case refreshChallenge refresh of
             (Thrown, tr) \<Rightarrow> (Thrown, tr)
           | (Value u, tr) \<Rightarrow> (Value None, tr))
      | Current info \<Rightarrow>
          if \<not> hasCorrectFormat info then
            (case refreshChallenge refresh of
               (Thrown, tr) \<Rightarrow> (Thrown, tr)
             | (Value u, tr) \<Rightarrow> (Value None, tr))
          else (Value (Some info), []))"

text \<open>
  A promise either never settles or settles at some time (in milliseconds after it was
  made) with a value. \<open>Promise.race\<close> settles with the first of its promises to settle;
  of two that settle at the same time the earlier in the array is taken.
\<close>

datatype 'a promise = Never | Settles nat 'a

fun race :: "'a promise list \<Rightarrow> 'a promise" where
  "race [] = Never"
| "race (p # ps) =
     (case p of
        Never \<Rightarrow> race ps
      | Settles t v \<Rightarrow>
          (case race ps of
             Never \<Rightarrow> Settles t v
           | Settles t' v' \<Rightarrow> if t \<le> t' then Settles t v else Settles t' v'))"

definition andThen :: "('a \<Rightarrow> 'b) \<Rightarrow> 'a promise \<Rightarrow> 'b promise" where
  "andThen f p = (case p of Never \<Rightarrow> Never | Settles t v \<Rightarrow> Settles t (f v))"

datatype race_result = TokenResult string | ChallengeResult challengeInfo | TimeoutResult

text \<open>
  One call of \<open>verifyChallenge\<close> as the outside decides it: whether the watcher has a
  challenge frame, whether the tiles get ready within ten seconds, how the check of the
  verify button and the click on it go, when the watcher fires \<open>onTokenFound\<close> and
  \<open>onChallengeChange\<close> after the click, and, for a new challenge, the refresh of a
  challenge of the wrong format and the passes over its tiles.
\<close>

datatype verify_check = CheckRejects | NotReady | NoVerifyButton | ClickRejects | Clicked

record verify_round =
  verifyFrame :: bool
  verifyTilesReady :: bool
  verifyCheck :: verify_check
  tokenFound :: "string promise"
  challengeChanged :: "challengeInfo promise"
  verifyRefresh :: refresh_outcome
  newTiles :: "nat \<Rightarrow> tiles_round"

text \<open>
  The race after the verify click: the token, a changed challenge, and five seconds.
\<close>

definition verifyRace3 :: "verify_round \<Rightarrow> race_result promise" where
  "verifyRace3 r =
     race [andThen TokenResult (tokenFound r),
           andThen ChallengeResult (challengeChanged r),
           Settles 5000 TimeoutResult]"

text \<open>
  \<open>verifyChallenge\<close> calls itself after a new challenge whose tiles were handled. The
  \<open>depth\<close>-th call of one chain is answered by \<open>calls depth\<close>. A chain that never ends
  does not return: the value is \<open>None\<close>.
\<close>

partial_function (option) verifyChallenge_from ::
  "(nat \<Rightarrow> verify_round) \<Rightarrow> nat \<Rightarrow> (string option outcome \<times> action list) option" where
  "verifyChallenge_from calls depth =
     (let r = calls depth in
      if \<not> verifyFrame r then Some (Value None, [])
      else if \<not> verifyTilesReady r then Some (Value None, [])
      else case verifyCheck r of
        CheckRejects \<Rightarrow> Some (Thrown, [])
      | NotReady \<Rightarrow> Some (Value None, [])
      | NoVerifyButton \<Rightarrow> Some (Value None, [])
      | ClickRejects \<Rightarrow> Some (Thrown, [])
      | Clicked \<Rightarrow>
          (case verifyRace3 r of
             Never \<Rightarrow> None
           | Settles t (TokenResult token) \<Rightarrow> Some (Value (Some token), [ClickVerify])
           | Settles t TimeoutResult \<Rightarrow> Some (Value None, [ClickVerify])
           | Settles t (ChallengeResult newChallengeInfo) \<Rightarrow>
               if \<not> hasCorrectFormat newChallengeInfo then
                 (case refreshChallenge (verifyRefresh r) of
                    (Thrown, tr) \<Rightarrow> Some (Thrown, ClickVerify # tr)
                  | (Value u, tr) \<Rightarrow> Some (Value None, ClickVerify # tr))
               else
                 (case handleChallengeTiles newChallengeInfo (newTiles r) of
                    (Thrown, tr) \<Rightarrow> Some (Thrown, ClickVerify # tr)
                  | (Value success, tr) \<Rightarrow>
                      if \<not> success then Some (Value None, ClickVerify # tr)
                      else Option.bind (verifyChallenge_from calls (depth + 1))
                             (\<lambda>(res, tr'). Some (res, ClickVerify # tr @ tr')))))"

definition verifyChallenge ::
  "(nat \<Rightarrow> verify_round) \<Rightarrow> (string option outcome \<times> action list) option" where
  "verifyChallenge calls = verifyChallenge_from calls 0"

text \<open>
  One iteration of the loop of \<open>solveChallengeLoop\<close> as the outside decides it, and its
  body: \<open>Value (Some token)\<close> is what \<open>verifyChallenge\<close> returned when it is not \<open>null\<close>,
  \<open>Value None\<close> is an iteration that ends by counting an attempt.
\<close>

record loop_round =
  current :: current_outcome
  currentRefresh :: refresh_outcome
  roundTiles :: "nat \<Rightarrow> tiles_round"
  roundVerify :: "nat \<Rightarrow> verify_round"

definition challengeRound :: "loop_round \<Rightarrow> (string option outcome \<times> action list) option" where
  "challengeRound r =
     (case getCurrentChallenge (current r) (currentRefresh r) of
        (Thrown, tr) \<Rightarrow> Some (Thrown, tr)
      | (Value None, tr) \<Rightarrow> Some (Value None, tr)
      | (Value (Some info), tr) \<Rightarrow>
          (case handleChallengeTiles info (roundTiles r) of
             (Thrown, tr2) \<Rightarrow> Some (Thrown, tr @ tr2)
           | (Value success, tr2) \<Rightarrow>
               if \<not> success then Some (Value None, tr @ tr2)
               else (case verifyChallenge (roundVerify r) of
                       None \<Rightarrow> None
                     | Some (res, tr3) \<Rightarrow> Some (res, tr @ tr2 @ tr3))))"

definition maxAttempts :: nat where
  "maxAttempts = 4"

function solveChallengeLoop_from ::
  "(nat \<Rightarrow> loop_round) \<Rightarrow> nat \<Rightarrow> (string option outcome \<times> action list) option" where
  "solveChallengeLoop_from rounds attempts =
     (if attempts < maxAttempts then
        (case challengeRound (rounds attempts) of
           None \<Rightarrow> None
         | Some (Thrown, tr) \<Rightarrow> Some (Thrown, RoundStart # tr)
         | Some (Value token, tr) \<Rightarrow>
             if truthy token then Some (Value token, RoundStart # tr)
             else (case solveChallengeLoop_from rounds (attempts + 1) of
                     None \<Rightarrow> None
                   | Some (res, tr') \<Rightarrow> Some (res, RoundStart # tr @ tr')))
      else Some (Value None, []))"
  by pat_completeness auto
termination
  by (relation "measure (\<lambda>(rounds, n). maxAttempts - n)") auto

declare solveChallengeLoop_from.simps [simp del]

definition solveChallengeLoop ::
  "(nat \<Rightarrow> loop_round) \<Rightarrow> (string option outcome \<times> action list) option" where
  "solveChallengeLoop rounds = solveChallengeLoop_from rounds 0"

section \<open>The visual solver: the checkbox and the whole session\<close>

text \<open>
  One session as the outside decides it: whether the watcher ever fires
  \<open>onCaptchaReady\<close>, the checkbox (no handle, a rejected click, a click), when the
  watcher fires \<open>onTokenFound\<close> and \<open>onChallengeOpen\<close> after the click, and the rounds.
  Awaiting a promise that never settles does not return (\<open>None\<close>).
\<close>

datatype checkbox_outcome = NoCheckbox | CheckboxRejects | CheckboxClicked

record session =
  captchaReady :: bool
  checkbox :: checkbox_outcome
  tokenAfterClick :: "string promise"
  challengeOpened :: "challengeInfo promise"
  rounds :: "nat \<Rightarrow> loop_round"

definition handleCheckboxClick :: "session \<Rightarrow> (string option \<times> action list) option" where
  "handleCheckboxClick s =
     (case checkbox s of
        NoCheckbox \<Rightarrow> Some (None, [])
      | CheckboxRejects \<Rightarrow> Some (None, [])
      | CheckboxClicked \<Rightarrow>
          (case race [andThen TokenResult (tokenAfterClick s),
                      andThen ChallengeResult (challengeOpened s)] of
             Never \<Rightarrow> None
           | Settles t (TokenResult token) \<Rightarrow> Some (Some token, [ClickCheckbox])
           | Settles t other \<Rightarrow> Some (None, [ClickCheckbox])))"

definition solveCaptchaChallenge :: "session \<Rightarrow> (string option \<times> action list) option" where
  "solveCaptchaChallenge s =
     (if \<not> captchaReady s then None
      else case handleCheckboxClick s of
        None \<Rightarrow> None
      | Some (initialResult, tr) \<Rightarrow>
          if truthy initialResult then Some (initialResult, tr @ [Cleanup])
          else (case solveChallengeLoop (rounds s) of
                  None \<Rightarrow> None
                | Some (Thrown, tr') \<Rightarrow> Some (None, tr @ tr' @ [Cleanup])
                | Some (Value res, tr') \<Rightarrow> Some (res, tr @ tr' @ [Cleanup])))"

section \<open>The audio solver\<close>

text \<open>
  One attempt of the audio loop as the outside decides it: the click on the audio
  button (made on the first attempt only), the two polls raced after it
  (\<open>waitForAudioChallenge\<close> with the URL or \<open>null\<close>, \<open>checkForBlockingMessage\<close>), the
  transcriber's services, whether the click on the reload button and whether typing
  and clicking verify are rejected, and the three polls raced after the verify click
  (\<open>waitForToken\<close>, \<open>checkForFailedChallenge\<close>, \<open>checkForBlockingMessage\<close>).
\<close>

datatype button_outcome = ButtonRejects | ButtonMissing | ButtonClicked

datatype audio_result = AudioFound string | BlockedAfterButton

datatype verify_result = TokenAfterVerify string | NeedMore | BlockedAfterVerify

record audio_attempt =
  audioButton :: button_outcome
  audioChallenge :: "string option promise"
  blockingMessage :: "bool promise"
  transcriber :: audio_env
  reloadRejects :: bool
  submitRejects :: bool
  tokenPolled :: "string option promise"
  failedChallenge :: "bool promise"
  blockingAfterSubmit :: "bool promise"

text \<open>The races of the attempt, each poll mapped as its \<open>then\<close> maps it.\<close>

definition audioRace :: "audio_attempt \<Rightarrow> audio_result option promise" where
  "audioRace a =
     race [andThen (\<lambda>audioUrl. if truthy audioUrl
                                 then map_option AudioFound audioUrl else None)
             (audioChallenge a),
           andThen (\<lambda>blocked. if blocked then Some BlockedAfterButton else None)
             (blockingMessage a)]"

definition verifyRace :: "audio_attempt \<Rightarrow> verify_result option promise" where
  "verifyRace a =
     race [andThen (\<lambda>token. if truthy token
                              then map_option TokenAfterVerify token else None)
             (tokenPolled a),
           andThen (\<lambda>failed. if failed then Some NeedMore else None)
             (failedChallenge a),
           andThen (\<lambda>blocked. if blocked then Some BlockedAfterVerify else None)
             (blockingAfterSubmit a)]"

text \<open>
  The body of the loop, for the value \<open>audioAttempts\<close> has after its increment. It either
  returns from the solver or goes on to the next iteration; every error thrown inside
  it goes on to the next iteration too.
\<close>

datatype attempt_exit = Return "string option" | Continue

definition audioAttempt ::
  "nat \<Rightarrow> audio_attempt \<Rightarrow> (attempt_exit \<times> action list) option" where
  "audioAttempt audioAttempts a =
     (if audioAttempts = 1 \<and> audioButton a \<noteq> ButtonClicked then Some (Continue, [])
      else
        (let tr0 = (if audioAttempts = 1 then [ClickAudioButton] else []) in
         case audioRace a of
           Never \<Rightarrow> None
         | Settles t None \<Rightarrow> Some (Continue, tr0)
         | Settles t (Some BlockedAfterButton) \<Rightarrow> Some (Return None, tr0)
         | Settles t (Some (AudioFound url)) \<Rightarrow>
             (case downloadAndTranscribeAudio (transcriber a) of
                (transcription, tr1) \<Rightarrow>
                  if \<not> truthy transcription then
                    Some (Continue,
                          tr0 @ tr1 @ (if reloadRejects a then [] else [ClickReload]))
                  else if submitRejects a then Some (Continue, tr0 @ tr1)
                  else
                    (let tr2 = tr0 @ tr1 @
                           [TypeResponse (case transcription of None \<Rightarrow> [] | Some x \<Rightarrow> x),
                            ClickVerify] in
                     case verifyRace a of
                       Never \<Rightarrow> None
                     | Settles t' None \<Rightarrow> Some (Continue, tr2)
                     | Settles t' (Some (TokenAfterVerify token)) \<Rightarrow>
                         Some (Return (Some token), tr2)
                     | Settles t' (Some BlockedAfterVerify) \<Rightarrow> Some (Return None, tr2)
                     | Settles t' (Some NeedMore) \<Rightarrow> Some (Continue, tr2)))))"

definition maxAudioAttempts :: nat where
  "maxAudioAttempts = 3"

text \<open>
  The loop. Its condition also reads \<open>isBlocked\<close>, which is set only on the two lines
  that return right after, so it is false whenever the condition is evaluated.
\<close>

function audioLoop ::
  "(nat \<Rightarrow> audio_attempt) \<Rightarrow> nat \<Rightarrow> (string option \<times> action list) option" where
  "audioLoop attempts audioAttempts =
     (if audioAttempts < maxAudioAttempts then
        (case audioAttempt (audioAttempts + 1) (attempts audioAttempts) of
           None \<Rightarrow> None
         | Some (Return res, tr) \<Rightarrow> Some (res, AudioAttempt # tr)
         | Some (Continue, tr) \<Rightarrow>
             (case audioLoop attempts (audioAttempts + 1) of
                None \<Rightarrow> None
              | Some (res, tr') \<Rightarrow> Some (res, AudioAttempt # tr @ tr')))
      else Some (None, []))"
  by pat_completeness auto
termination
  by (relation "measure (\<lambda>(attempts, n). maxAudioAttempts - n)") auto

declare audioLoop.simps [simp del]

text \<open>
  The audio solver up to its loop: the checkbox is found and clicked, the token poll is
  raced against the wait for the challenge frame, and a last short token poll is made
  before the loop. Every error is caught and gives \<open>null\<close>.
\<close>

datatype checkbox_result = TokenAtOnce string | ChallengeFrame

record audio_session =
  captchaElements :: bool
  checkboxClicked :: bool
  tokenAfterCheckbox :: "string option promise"
  challengeFrame :: "bool promise"
  immediateToken :: "string option"
  audioAttempts :: "nat \<Rightarrow> audio_attempt"

definition solveCaptchaChallenge_audio ::
  "audio_session \<Rightarrow> (string option \<times> action list) option" where
  "solveCaptchaChallenge_audio s =
     (if \<not> captchaElements s then Some (None, [])
      else if \<not> checkboxClicked s then Some (None, [])
      else
        (case race [andThen (\<lambda>token. if truthy token
                                       then map_option TokenAtOnce token else None)
                      (tokenAfterCheckbox s),
                    andThen (\<lambda>frame. if frame then Some ChallengeFrame else None)
                      (challengeFrame s)] of
           Never \<Rightarrow> None
         | Settles t None \<Rightarrow> Some (None, [ClickCheckbox])
         | Settles t (Some (TokenAtOnce token)) \<Rightarrow> Some (Some token, [ClickCheckbox])
         | Settles t (Some ChallengeFrame) \<Rightarrow>
             if truthy (immediateToken s) then Some (immediateToken s, [ClickCheckbox])
             else (case audioLoop (audioAttempts s) 0 of
                     None \<Rightarrow> None
                   | Some (res, tr) \<Rightarrow> Some (res, ClickCheckbox # tr))))"

section \<open>Concrete inputs\<close>

text \<open>Three challenges as the detector reads them: one with an empty text, two with a prompt.\<close>

definition emptyPrompt :: challengeInfo where
  "emptyPrompt = \<lparr> challengeText = [], promptText = [], hasCorrectFormat = False,
     isDynamic = False, gridType = ''rc-imageselect-table-33'',
     imageUrls = Some [''payload-a''] \<rparr>"

definition carsPrompt :: challengeInfo where
  "carsPrompt = \<lparr> challengeText = ''Select all images with cars'', promptText = ''cars'',
     hasCorrectFormat = True, isDynamic = False, gridType = ''rc-imageselect-table-33'',
     imageUrls = Some [''payload-b''] \<rparr>"

definition busPrompt :: challengeInfo where
  "busPrompt = \<lparr> challengeText = ''Select all images with a bus'', promptText = ''a bus'',
     hasCorrectFormat = True, isDynamic = False, gridType = ''rc-imageselect-table-33'',
     imageUrls = Some [''payload-c''] \<rparr>"

text \<open>The watcher after it has read each of the first two as its first challenge.\<close>

definition afterEmptyPrompt :: captchaWatcher where
  "afterEmptyPrompt = fst (onChallengeInfo newWatcher 0 emptyPrompt)"

definition afterCarsPrompt :: captchaWatcher where
  "afterCarsPrompt = fst (onChallengeInfo newWatcher 0 carsPrompt)"

text \<open>A grid of nine tiles, and services whose first two downloads fail.\<close>

definition nineTiles :: click_env where
  "nineTiles = \<lparr> tileCount = 9, evaluateRejects = False \<rparr>"

definition quote :: string where
  "quote = [CHR 0x22]"

definition witBody :: string where
  "witBody = ''{'' @ quote @ ''text'' @ quote @ '': '' @ quote @ ''seven two'' @ quote @ ''}''"

definition thirdTimeLucky :: audio_env where
  "thirdTimeLucky = \<lparr> downloads = (\<lambda>k. if k < 2 then TransportError else Response 200 ''mp3''),
     witResponse = Some witBody \<rparr>"

definition alwaysUnavailable :: audio_env where
  "alwaysUnavailable = \<lparr> downloads = (\<lambda>k. Response 503 []), witResponse = Some witBody \<rparr>"

text \<open>
  Two answers of the vision model: a fenced object that marks its one tile as no match,
  and a text that is no JSON. \<open>parseNoMatch\<close> is \<open>JSON.parse\<close> on these two texts.
\<close>

definition noMatchJson :: string where
  "noMatchJson = ''{'' @ quote @ ''[1,1]'' @ quote @ '': {'' @ quote @ ''has_match'' @ quote
                  @ '': false}}''"

definition parseNoMatch :: "string \<Rightarrow> json option" where
  "parseNoMatch text =
     (if text = noMatchJson
      then Some (JObject [(''[1,1]'', JObject [(''has_match'', JBool False)])])
      else None)"

definition noMatchResponse :: string where
  "noMatchResponse = fence @ ''json'' @ [CHR 0x0A] @ noMatchJson @ [CHR 0x0A] @ fence"

definition noMatchAnswer :: gemini_env where
  "noMatchAnswer = \<lparr> readFile = True, geminiResponse = Some noMatchResponse,
     jsonParse = parseNoMatch \<rparr>"

definition garbledAnswer :: gemini_env where
  "garbledAnswer = \<lparr> readFile = True, geminiResponse = Some ''I cannot help with that'',
     jsonParse = parseNoMatch \<rparr>"

definition passesWith :: "gemini_env \<Rightarrow> nat \<Rightarrow> tiles_round" where
  "passesWith env = (\<lambda>k. \<lparr> tilesReady = True, shot = ShotTaken, gemini = env,
     clicks = (\<lambda>i. nineTiles) \<rparr>)"






text \<open>
  A call of \<open>verifyChallenge\<close> goes on to call itself when the verify button is clicked,
  the race is won by a new challenge of the right format, and the tiles of the new
  challenge are handled with success.
\<close>

definition verifyContinues :: "verify_round \<Rightarrow> bool" where
  "verifyContinues r =
     (verifyFrame r \<and> verifyTilesReady r \<and> verifyCheck r = Clicked \<and>
      (\<exists>t newChallengeInfo. verifyRace3 r = Settles t (ChallengeResult newChallengeInfo) \<and>
         hasCorrectFormat newChallengeInfo \<and>
         fst (handleChallengeTiles newChallengeInfo (newTiles r)) = Value True))"

text \<open>An iteration of the round loop fails when it returns no token and does not throw.\<close>

definition roundFails :: "loop_round \<Rightarrow> bool" where
  "roundFails r = (\<exists>token tr. challengeRound r = Some (Value token, tr) \<and> \<not> truthy token)"

text \<open>
  A page on which every verify click is followed, after 1.2 seconds, by a new challenge
  in which the model finds nothing to click, and the rounds of a session on that page.
\<close>

definition endlessVerify :: "nat \<Rightarrow> verify_round" where
  "endlessVerify = (\<lambda>depth. \<lparr> verifyFrame = True, verifyTilesReady = True,
     verifyCheck = Clicked, tokenFound = Never, challengeChanged = Settles 1200 busPrompt,
     verifyRefresh = Reloaded, newTiles = passesWith noMatchAnswer \<rparr>)"

definition endlessRounds :: "nat \<Rightarrow> loop_round" where
  "endlessRounds = (\<lambda>attempt. \<lparr> current = Current carsPrompt, currentRefresh = Reloaded,
     roundTiles = passesWith noMatchAnswer, roundVerify = endlessVerify \<rparr>)"

text \<open>
  Rounds in which the answer of the model never parses, on a page whose verify button
  is never ready.
\<close>

definition neverReadyVerify :: "nat \<Rightarrow> verify_round" where
  "neverReadyVerify = (\<lambda>depth. \<lparr> verifyFrame = True, verifyTilesReady = True,
     verifyCheck = NotReady, tokenFound = Never, challengeChanged = Never,
     verifyRefresh = Reloaded, newTiles = passesWith garbledAnswer \<rparr>)"

definition garbledRounds :: "nat \<Rightarrow> loop_round" where
  "garbledRounds = (\<lambda>attempt. \<lparr> current = Current carsPrompt, currentRefresh = Reloaded,
     roundTiles = passesWith garbledAnswer, roundVerify = neverReadyVerify \<rparr>)"

text \<open>
  A session in which the token is found 50 ms after the checkbox click and the challenge
  opens 300 ms after it.
\<close>

definition tokenFirst :: session where
  "tokenFirst = \<lparr> captchaReady = True, checkbox = CheckboxClicked,
     tokenAfterClick = Settles 50 ''03AGdBq24PBgq'',
     challengeOpened = Settles 300 carsPrompt, rounds = endlessRounds \<rparr>"

text \<open>The first promise settles, and the second does not settle before it.\<close>

definition settlesFirst :: "'a promise \<Rightarrow> 'b promise \<Rightarrow> bool" where
  "settlesFirst p q =
     (case p of
        Never \<Rightarrow> False
      | Settles t v \<Rightarrow> (case q of Never \<Rightarrow> True | Settles t' v' \<Rightarrow> t < t'))"

text \<open>
  An attempt of the audio loop in which a blocked signal is observed: the race after
  the audio button is won by the blocking message, or the audio is found, transcribed
  and submitted and the race after the verify click is won by the blocking message. On
  the first attempt the races are only reached when the audio button was clicked.
\<close>

definition blockedAttempt :: "nat \<Rightarrow> audio_attempt \<Rightarrow> bool" where
  "blockedAttempt n a =
     ((n \<noteq> 1 \<or> audioButton a = ButtonClicked) \<and>
      ((\<exists>t. audioRace a = Settles t (Some BlockedAfterButton)) \<or>
       (\<exists>t url t'. audioRace a = Settles t (Some (AudioFound url)) \<and>
          truthy (fst (downloadAndTranscribeAudio (transcriber a))) \<and>
          \<not> submitRejects a \<and>
          verifyRace a = Settles t' (Some BlockedAfterVerify))))"

text \<open>
  Three attempts: one that is answered by "multiple correct solutions required", one
  that is blocked after the audio button, and one that is blocked after the verify
  click.
\<close>

definition needMoreAttempt :: audio_attempt where
  "needMoreAttempt = \<lparr> audioButton = ButtonClicked,
     audioChallenge = Settles 700 (Some ''https://audio/1.mp3''),
     blockingMessage = Settles 2000 False, transcriber = thirdTimeLucky,
     reloadRejects = False, submitRejects = False,
     tokenPolled = Settles 5000 None, failedChallenge = Settles 300 True,
     blockingAfterSubmit = Settles 2000 False \<rparr>"

definition blockedAtButton :: audio_attempt where
  "blockedAtButton = \<lparr> audioButton = ButtonClicked,
     audioChallenge = Settles 5000 None,
     blockingMessage = Settles 400 True, transcriber = thirdTimeLucky,
     reloadRejects = False, submitRejects = False,
     tokenPolled = Settles 5000 None, failedChallenge = Settles 2000 False,
     blockingAfterSubmit = Settles 2000 False \<rparr>"

definition blockedAtVerify :: audio_attempt where
  "blockedAtVerify = \<lparr> audioButton = ButtonClicked,
     audioChallenge = Settles 700 (Some ''https://audio/2.mp3''),
     blockingMessage = Settles 2000 False, transcriber = thirdTimeLucky,
     reloadRejects = False, submitRejects = False,
     tokenPolled = Settles 5000 None, failedChallenge = Settles 2000 False,
     blockingAfterSubmit = Settles 600 True \<rparr>"

definition blockedSecond :: "nat \<Rightarrow> audio_attempt" where
  "blockedSecond = (\<lambda>k. if k = 0 then needMoreAttempt else blockedAtButton)"

definition blockedFirst :: "nat \<Rightarrow> audio_attempt" where
  "blockedFirst = (\<lambda>k. blockedAtVerify)"







text \<open>The rest of the theory states and proves the properties of these definitions.\<close>

section \<open>Properties of the watcher\<close>

lemma list_ex_enumerate:
  "list_ex (\<lambda>(index, url). url \<noteq> new ! index) (enumerate 0 cur) =
     (\<exists>i<length cur. cur ! i \<noteq> new ! i)"
proof -
  have "list_ex (\<lambda>(index, url). url \<noteq> new ! index) (enumerate 0 cur) =
        (\<exists>p \<in> set (enumerate 0 cur). snd p \<noteq> new ! fst p)"
    by (simp add: list_ex_iff case_prod_beta)
  also have "\<dots> = (\<exists>i<length cur. cur ! i \<noteq> new ! i)"
  proof
    assume "\<exists>p \<in> set (enumerate 0 cur). snd p \<noteq> new ! fst p"
    then show "\<exists>i<length cur. cur ! i \<noteq> new ! i"
      by (auto simp: in_set_enumerate_eq)
  next
    assume "\<exists>i<length cur. cur ! i \<noteq> new ! i"
    then obtain i where i: "i < length cur" "cur ! i \<noteq> new ! i" by blast
    then have "(i, cur ! i) \<in> set (enumerate 0 cur)"
      by (simp add: in_set_enumerate_eq)
    with i show "\<exists>p \<in> set (enumerate 0 cur). snd p \<noteq> new ! fst p"
      by force
  qed
  finally show ?thesis .
qed

lemma unchanged_iff:
  "(\<not> checkIfChallengeChanged w b) =
     (currentChallengeText w = Some (challengeText b) \<and>
      (\<exists>cur new. currentImageUrls w = Some cur \<and> imageUrls b = Some new \<and>
         length cur = length new \<and> (\<forall>i<length cur. cur ! i = new ! i)))"
  by (auto simp: checkIfChallengeChanged_def list_ex_enumerate split: option.splits)

lemma checkIfChallengeChanged_frame [simp]:
  "checkIfChallengeChanged (w\<lparr> currentChallengeFrame := f \<rparr>) b = checkIfChallengeChanged w b"
  by (simp add: checkIfChallengeChanged_def)

lemma onChallengeInfo_changed:
  assumes "truthy (currentChallengeText w)" and "checkIfChallengeChanged w b"
  shows "onChallengeInfo w f b =
           (updateCurrentChallenge (w\<lparr> currentChallengeFrame := Some f \<rparr>) b,
            [TilesReady b f, ChallengeChange b f])"
  using assms by (simp add: onChallengeInfo_def Let_def)

text \<open>
  C1 (amended). The change test judges a new challenge unchanged exactly when the
  stored text is the new text, both image lists are present and of the same length, and
  they agree at every position. When the stored text is not empty and the test says
  changed, the detector fires \<open>onTilesReady\<close> and then \<open>onChallengeChange\<close> with the new
  challenge, and stores its text and its image list.
\<close>

theorem challenge_change_detected:
  "((\<not> checkIfChallengeChanged w b) =
      (currentChallengeText w = Some (challengeText b) \<and>
       (\<exists>cur new. currentImageUrls w = Some cur \<and> imageUrls b = Some new \<and>
          length cur = length new \<and> (\<forall>i<length cur. cur ! i = new ! i)))) \<and>
   (truthy (currentChallengeText w) \<and> checkIfChallengeChanged w b \<longrightarrow>
      snd (onChallengeInfo w f b) = [TilesReady b f, ChallengeChange b f] \<and>
      currentChallengeText (fst (onChallengeInfo w f b)) = Some (challengeText b) \<and>
      currentImageUrls (fst (onChallengeInfo w f b)) = imageUrls b)"
proof (intro conjI impI)
  show "(\<not> checkIfChallengeChanged w b) =
      (currentChallengeText w = Some (challengeText b) \<and>
       (\<exists>cur new. currentImageUrls w = Some cur \<and> imageUrls b = Some new \<and>
          length cur = length new \<and> (\<forall>i<length cur. cur ! i = new ! i)))"
    by (rule unchanged_iff)
next
  assume h: "truthy (currentChallengeText w) \<and> checkIfChallengeChanged w b"
  then have eq: "onChallengeInfo w f b =
           (updateCurrentChallenge (w\<lparr> currentChallengeFrame := Some f \<rparr>) b,
            [TilesReady b f, ChallengeChange b f])"
    by (simp add: onChallengeInfo_changed)
  show "snd (onChallengeInfo w f b) = [TilesReady b f, ChallengeChange b f]"
    by (simp add: eq)
  show "currentChallengeText (fst (onChallengeInfo w f b)) = Some (challengeText b)"
    by (simp add: eq updateCurrentChallenge_def)
  show "currentImageUrls (fst (onChallengeInfo w f b)) = imageUrls b"
    by (simp add: eq updateCurrentChallenge_def)
qed

lemma afterCarsPrompt_eq:
  "afterCarsPrompt = \<lparr> page = None, isWatching = False,
     currentChallengeText = Some ''Select all images with cars'',
     currentCaptchaFrame = None, currentChallengeFrame = Some 0,
     currentImageUrls = Some [''payload-b''], currentCheckbox = None \<rparr>"
  by (simp add: afterCarsPrompt_def onChallengeInfo_def newWatcher_def truthy_def
      updateCurrentChallenge_def carsPrompt_def Let_def)

lemma afterEmptyPrompt_eq:
  "afterEmptyPrompt = \<lparr> page = None, isWatching = False,
     currentChallengeText = Some [],
     currentCaptchaFrame = None, currentChallengeFrame = Some 0,
     currentImageUrls = Some [''payload-a''], currentCheckbox = None \<rparr>"
  by (simp add: afterEmptyPrompt_def onChallengeInfo_def newWatcher_def truthy_def
      updateCurrentChallenge_def emptyPrompt_def Let_def)

text \<open>
  The theorem at a watcher that holds the cars challenge and reads the bus challenge.
\<close>

theorem challenge_change_detected_witness:
  "truthy (currentChallengeText afterCarsPrompt) \<and>
   checkIfChallengeChanged afterCarsPrompt busPrompt \<and>
   snd (onChallengeInfo afterCarsPrompt 0 busPrompt) =
     [TilesReady busPrompt 0, ChallengeChange busPrompt 0] \<and>
   currentChallengeText (fst (onChallengeInfo afterCarsPrompt 0 busPrompt)) =
     Some ''Select all images with a bus''"
proof -
  have t: "truthy (currentChallengeText afterCarsPrompt)"
    by (simp add: afterCarsPrompt_eq truthy_def)
  have c: "checkIfChallengeChanged afterCarsPrompt busPrompt"
    by (simp add: afterCarsPrompt_eq checkIfChallengeChanged_def busPrompt_def)
  have b: "challengeText busPrompt = ''Select all images with a bus''"
    by (simp add: busPrompt_def)
  show ?thesis
    using challenge_change_detected [of afterCarsPrompt busPrompt 0] t c b by simp
qed

text \<open>
  C1 as the specification states it fails for a stored challenge whose text is empty: the
  watcher has stored the challenge and the next one differs from it, yet the detector
  fires \<open>onChallengeOpen\<close> and not \<open>onChallengeChange\<close>.
\<close>

theorem challenge_change_counterexample:
  "currentChallengeText afterEmptyPrompt = Some [] \<and>
   currentImageUrls afterEmptyPrompt = Some [''payload-a''] \<and>
   checkIfChallengeChanged afterEmptyPrompt carsPrompt \<and>
   snd (onChallengeInfo afterEmptyPrompt 0 carsPrompt) =
     [TilesReady carsPrompt 0, ChallengeOpen carsPrompt 0]"
  by (simp add: afterEmptyPrompt_eq checkIfChallengeChanged_def onChallengeInfo_def
      truthy_def carsPrompt_def Let_def)

section \<open>Properties of clickTile\<close>












section \<open>Properties of the audio transcriber\<close>

lemma downloadLoop_success:
  assumes "k < 3" and "\<forall>j<k. downloadFails (ds j)" and "ds k = Response 200 body"
  shows "downloadLoop ds 0 = (Break body, concat (replicate k [Download, Sleep 1000]) @ [Download])"
proof -
  have stop: "\<And>n. n < 3 \<Longrightarrow> ds n = Response 200 body \<Longrightarrow>
      downloadLoop ds n = (Break body, [Download])"
    by (subst downloadLoop.simps) (simp add: maxDownloadAttempts_def)
  have step: "\<And>n. n < 2 \<Longrightarrow> downloadFails (ds n) \<Longrightarrow>
      downloadLoop ds n = (fst (downloadLoop ds (n + 1)), Download # Sleep 1000 # snd (downloadLoop ds (n + 1)))"
    by (subst downloadLoop.simps)
       (auto simp: maxDownloadAttempts_def downloadFails_def split: download.splits prod.splits)
  from assms(1) consider "k = 0" | "k = 1" | "k = 2" by linarith
  then show ?thesis
  proof cases
    case 1
    with assms stop [of 0] show ?thesis by simp
  next
    case 2
    with assms stop [of 1] step [of 0] show ?thesis by simp
  next
    case 3
    then have f: "downloadFails (ds 0)" "downloadFails (ds 1)" using assms(2) by simp_all
    have "downloadLoop ds 2 = (Break body, [Download])"
      using stop [of 2] assms(3) 3 by simp
    then have "downloadLoop ds 1 = (Break body, [Download, Sleep 1000, Download])"
      using step [of 1] f(2) by (simp add: numeral_2_eq_2)
    then have "downloadLoop ds 0 = (Break body, [Download, Sleep 1000, Download, Sleep 1000, Download])"
      using step [of 0] f(1) by simp
    with 3 show ?thesis by (simp add: numeral_2_eq_2)
  qed
qed

lemma downloadLoop_failure:
  assumes "\<forall>j<3. downloadFails (ds j)"
  shows "downloadLoop ds 0 = (ReturnNull, [Download, Sleep 1000, Download, Sleep 1000, Download])"
proof -
  have f: "downloadFails (ds 0)" "downloadFails (ds 1)" "downloadFails (ds 2)"
    using assms by simp_all
  have 2: "downloadLoop ds 2 = (ReturnNull, [Download])"
    using f(3) by (subst downloadLoop.simps)
      (auto simp: maxDownloadAttempts_def downloadFails_def split: download.splits)
  have 1: "downloadLoop ds 1 = (ReturnNull, [Download, Sleep 1000, Download])"
    using f(2) 2 by (subst downloadLoop.simps)
      (auto simp: maxDownloadAttempts_def downloadFails_def numeral_2_eq_2 split: download.splits)
  show ?thesis
    using f(1) 1 by (subst downloadLoop.simps)
      (auto simp: maxDownloadAttempts_def downloadFails_def split: download.splits)
qed

lemma downloadLoop_count:
  "count_list (snd (downloadLoop ds n)) Download \<le> maxDownloadAttempts - n"
proof (induction ds n rule: downloadLoop.induct)
  case (1 ds n)
  show ?case
    using 1 by (subst downloadLoop.simps)
      (auto simp: maxDownloadAttempts_def split: download.splits prod.splits)
qed

text \<open>
  C7. The download is attempted at most three times. When the first \<open>k\<close> attempts fail
  (a transport error or a status other than 200) and the next one, among the three,
  succeeds, the function has slept one second after each failure and goes on to the
  transcription, whose result it returns. When all three attempts fail it returns
  \<open>null\<close> after the third: no fourth download, no sleep after the last failure, and no
  call of the speech service.
\<close>

theorem download_retry:
  "(\<forall>k<3. (\<forall>j<k. downloadFails (downloads env j)) \<and> downloads env k = Response 200 body \<longrightarrow>
      downloadAndTranscribeAudio env =
        (Option.bind (witResponse env) lastTextMatch,
         concat (replicate k [Download, Sleep 1000]) @ [Download, Transcribe])) \<and>
   ((\<forall>j<3. downloadFails (downloads env j)) \<longrightarrow>
      downloadAndTranscribeAudio env =
        (None, [Download, Sleep 1000, Download, Sleep 1000, Download])) \<and>
   count_list (snd (downloadAndTranscribeAudio env)) Download \<le> 3"
proof (intro conjI allI impI)
  fix k
  assume "k < 3"
    and "(\<forall>j<k. downloadFails (downloads env j)) \<and> downloads env k = Response 200 body"
  then have "downloadLoop (downloads env) 0 =
      (Break body, concat (replicate k [Download, Sleep 1000]) @ [Download])"
    using downloadLoop_success [of k "downloads env" body] by simp
  then show "downloadAndTranscribeAudio env =
        (Option.bind (witResponse env) lastTextMatch,
         concat (replicate k [Download, Sleep 1000]) @ [Download, Transcribe])"
    by (simp add: downloadAndTranscribeAudio_def split: option.splits)
next
  assume "\<forall>j<3. downloadFails (downloads env j)"
  then show "downloadAndTranscribeAudio env =
        (None, [Download, Sleep 1000, Download, Sleep 1000, Download])"
    by (simp add: downloadAndTranscribeAudio_def downloadLoop_failure)
next
  have "count_list (snd (downloadLoop (downloads env) 0)) Download \<le> 3"
    using downloadLoop_count [of "downloads env" 0] by (simp add: maxDownloadAttempts_def)
  then show "count_list (snd (downloadAndTranscribeAudio env)) Download \<le> 3"
    by (auto simp: downloadAndTranscribeAudio_def split: prod.splits download_exit.splits option.splits)
qed

text \<open>
  The theorem on services whose third download succeeds, and on services that always
  answer 503.
\<close>

lemma lastTextMatch_example: "lastTextMatch witBody = Some ''seven two''"
  by (simp add: witBody_def lastTextMatch_def textMatchAt_def textKey_def quote_def js_space_def)

theorem download_retry_witness:
  "downloadAndTranscribeAudio thirdTimeLucky =
     (Some ''seven two'', [Download, Sleep 1000, Download, Sleep 1000, Download, Transcribe]) \<and>
   downloadAndTranscribeAudio alwaysUnavailable =
     (None, [Download, Sleep 1000, Download, Sleep 1000, Download])"
proof -
  have a: "(\<forall>j<2. downloadFails (downloads thirdTimeLucky j)) \<and>
           downloads thirdTimeLucky 2 = Response 200 ''mp3''"
    by (simp add: thirdTimeLucky_def downloadFails_def)
  have "\<forall>k<3. (\<forall>j<k. downloadFails (downloads thirdTimeLucky j)) \<and>
            downloads thirdTimeLucky k = Response 200 ''mp3'' \<longrightarrow>
      downloadAndTranscribeAudio thirdTimeLucky =
        (Option.bind (witResponse thirdTimeLucky) lastTextMatch,
         concat (replicate k [Download, Sleep 1000]) @ [Download, Transcribe])"
    using download_retry [of thirdTimeLucky "''mp3''"] by blast
  from this [rule_format, of 2] a
  have 1: "downloadAndTranscribeAudio thirdTimeLucky =
     (Some ''seven two'', [Download, Sleep 1000, Download, Sleep 1000, Download, Transcribe])"
    by (simp add: numeral_2_eq_2 thirdTimeLucky_def lastTextMatch_example)
  have b: "\<forall>j<3. downloadFails (downloads alwaysUnavailable j)"
    by (simp add: alwaysUnavailable_def downloadFails_def)
  have 2: "downloadAndTranscribeAudio alwaysUnavailable =
     (None, [Download, Sleep 1000, Download, Sleep 1000, Download])"
    using download_retry [of alwaysUnavailable "[]"] b by blast
  from 1 2 show ?thesis by simp
qed

section \<open>Properties of the tile analyzer\<close>

lemma js_split_from_nonempty: "js_split_from sep k t \<noteq> []"
  by (induction t arbitrary: k) (auto split: list.splits)

lemma js_split_two_pieces:
  "js_includes s sep \<Longrightarrow> sep \<noteq> [] \<Longrightarrow> \<exists>a b rest. js_split_from sep 0 s = a # b # rest"
proof (induction s)
  case Nil
  then show ?case by simp
next
  case (Cons c cs)
  show ?case
  proof (cases "prefix sep (c # cs)")
    case True
    obtain x xs where "js_split_from sep (length sep - 1) cs = x # xs"
      using js_split_from_nonempty [of sep "length sep - 1" cs] by (cases "js_split_from sep (length sep - 1) cs") auto
    with True show ?thesis by simp
  next
    case False
    with Cons.prems have "js_includes cs sep" by simp
    with Cons.IH Cons.prems obtain a b rest where "js_split_from sep 0 cs = a # b # rest" by blast
    with False show ?thesis by simp
  qed
qed

lemma betweenFences_total:
  assumes "js_includes response opening" and "opening \<noteq> []"
  shows "\<exists>jsonStr. betweenFences opening response = Some jsonStr"
proof -
  obtain a b rest where 1: "js_split opening response = a # b # rest"
    using js_split_two_pieces [OF assms] by (auto simp: js_split_def)
  obtain x xs where 2: "js_split fence b = x # xs"
    using js_split_from_nonempty [of fence 0 b] by (cases "js_split fence b") (auto simp: js_split_def)
  show ?thesis by (simp add: betweenFences_def 1 2)
qed

lemma extractJson_total: "\<exists>jsonStr. extractJson response = Some jsonStr"
  using betweenFences_total [of response "fence @ ''json''"] betweenFences_total [of response fence]
  by (auto simp: extractJson_def fence_def)

lemma objectEntries_None: "(objectEntries v = None) = (v = JNull)"
  by (cases v) (simp_all add: objectEntries_def)

lemma has_match_None: "(has_match d = None) = (d = JNull)"
  by (cases d) (simp_all add: has_match_def)

lemma has_match_JNull: "has_match JNull = None"
  by (simp add: has_match_def)

lemma filterMatches_None: "(filterMatches es = None) = (JNull \<in> snd ` set es)"
  by (induction es rule: filterMatches.induct)
     (auto simp: has_match_None has_match_JNull split: option.splits)

lemma filterMatches_Some:
  "filterMatches es = Some coords \<Longrightarrow>
     coords = map fst (filter (\<lambda>(coord, data). has_match data = Some True) es)"
  by (induction es arbitrary: coords rule: filterMatches.induct)
     (auto split: option.splits if_splits)

lemma analyzeWithGemini_None:
  "(analyzeWithGemini env = None) =
     (\<not> readFile env \<or> geminiResponse env = None \<or>
      (\<exists>response jsonStr. geminiResponse env = Some response \<and>
         extractJson response = Some jsonStr \<and>
         (jsonParse env jsonStr = None \<or> jsonParse env jsonStr = Some JNull \<or>
          (\<exists>v entries. jsonParse env jsonStr = Some v \<and> objectEntries v = Some entries \<and>
             JNull \<in> snd ` set entries))))"
proof (cases "readFile env")
  case False
  then show ?thesis by (simp add: analyzeWithGemini_def)
next
  case True
  show ?thesis
  proof (cases "geminiResponse env")
    case None
    with True show ?thesis by (simp add: analyzeWithGemini_def)
  next
    case (Some response)
    obtain jsonStr where j: "extractJson response = Some jsonStr"
      using extractJson_total by blast
    show ?thesis
    proof (cases "jsonParse env jsonStr")
      case None
      with True Some j show ?thesis by (simp add: analyzeWithGemini_def)
    next
      case (Some v)
      show ?thesis
      proof (cases "objectEntries v")
        case None
        then have "v = JNull" by (simp add: objectEntries_None)
        with True \<open>geminiResponse env = Some response\<close> j Some None show ?thesis
          by (simp add: analyzeWithGemini_def)
      next
        case (Some entries)
        then have "v \<noteq> JNull" using objectEntries_None [of v] by auto
        with True \<open>geminiResponse env = Some response\<close> j \<open>jsonParse env jsonStr = Some v\<close> Some
        show ?thesis
          by (simp add: analyzeWithGemini_def filterMatches_None)
      qed
    qed
  qed
qed

lemma analyzeWithGemini_Some:
  assumes "readFile env" and "geminiResponse env = Some response"
    and "extractJson response = Some jsonStr" and "jsonParse env jsonStr = Some v"
    and "objectEntries v = Some entries" and "JNull \<notin> snd ` set entries"
  shows "analyzeWithGemini env =
           Some (map fst (filter (\<lambda>(coord, data). has_match data = Some True) entries))"
proof -
  from assms(6) obtain coords where c: "filterMatches entries = Some coords"
    using filterMatches_None [of entries] by (cases "filterMatches entries") auto
  with assms show ?thesis
    by (simp add: analyzeWithGemini_def filterMatches_Some [OF c])
qed

lemma handleChallengeTiles_analysis:
  assumes "tilesReady (passes 0)" and "shot (passes 0) = ShotTaken"
  shows "analyzeWithGemini (gemini (passes 0)) = None \<Longrightarrow>
           handleChallengeTiles info passes = (Value False, [Screenshot, Analyze])"
    and "analyzeWithGemini (gemini (passes 0)) = Some [] \<Longrightarrow>
           handleChallengeTiles info passes = (Value True, [Screenshot, Analyze])"
  using assms
  by (simp_all add: handleChallengeTiles_def handleChallengeTiles_from.simps [of info passes 0]
      takeScreenshotAndAnalyze_def Let_def)

text \<open>
  C6. The analyzer returns \<open>null\<close> exactly when a step fails: the screenshot file is not
  read, the vision call is rejected, the cleaned text does not parse, or the parsed
  value is \<open>null\<close> or holds a \<open>null\<close> entry (the two reads that throw). When every step
  succeeds and no entry has a true \<open>has_match\<close>, it returns the empty list. For the
  caller \<open>handleChallengeTiles\<close> the empty list is success (go on to verify, nothing
  clicked) and \<open>null\<close> is failure.
\<close>

theorem tile_analysis_null_or_empty:
  "((analyzeWithGemini env = None) =
     (\<not> readFile env \<or> geminiResponse env = None \<or>
      (\<exists>response jsonStr. geminiResponse env = Some response \<and>
         extractJson response = Some jsonStr \<and>
         (jsonParse env jsonStr = None \<or> jsonParse env jsonStr = Some JNull \<or>
          (\<exists>v entries. jsonParse env jsonStr = Some v \<and> objectEntries v = Some entries \<and>
             JNull \<in> snd ` set entries))))) \<and>
   (readFile env \<and> geminiResponse env = Some response \<and>
    extractJson response = Some jsonStr \<and> jsonParse env jsonStr = Some v \<and>
    objectEntries v = Some entries \<and> list_all (\<lambda>(coord, data). has_match data = Some False) entries
      \<longrightarrow> analyzeWithGemini env = Some []) \<and>
   (tilesReady (passes 0) \<and> shot (passes 0) = ShotTaken \<and> gemini (passes 0) = env \<longrightarrow>
      (analyzeWithGemini env = Some [] \<longrightarrow>
         handleChallengeTiles info passes = (Value True, [Screenshot, Analyze])) \<and>
      (analyzeWithGemini env = None \<longrightarrow>
         handleChallengeTiles info passes = (Value False, [Screenshot, Analyze])))"
proof (intro conjI impI)
  show "(analyzeWithGemini env = None) =
     (\<not> readFile env \<or> geminiResponse env = None \<or>
      (\<exists>response jsonStr. geminiResponse env = Some response \<and>
         extractJson response = Some jsonStr \<and>
         (jsonParse env jsonStr = None \<or> jsonParse env jsonStr = Some JNull \<or>
          (\<exists>v entries. jsonParse env jsonStr = Some v \<and> objectEntries v = Some entries \<and>
             JNull \<in> snd ` set entries))))"
    by (rule analyzeWithGemini_None)
next
  assume h: "readFile env \<and> geminiResponse env = Some response \<and>
    extractJson response = Some jsonStr \<and> jsonParse env jsonStr = Some v \<and>
    objectEntries v = Some entries \<and> list_all (\<lambda>(coord, data). has_match data = Some False) entries"
  then have no_null: "JNull \<notin> snd ` set entries"
    by (auto simp: list_all_iff has_match_JNull)
  from h have "filter (\<lambda>(coord, data). has_match data = Some True) entries = []"
    by (auto simp: list_all_iff filter_empty_conv)
  with h no_null show "analyzeWithGemini env = Some []"
    using analyzeWithGemini_Some [of env response jsonStr v entries] by simp
next
  assume "tilesReady (passes 0) \<and> shot (passes 0) = ShotTaken \<and> gemini (passes 0) = env"
    and "analyzeWithGemini env = Some []"
  then show "handleChallengeTiles info passes = (Value True, [Screenshot, Analyze])"
    using handleChallengeTiles_analysis(2) [of passes info] by simp
next
  assume "tilesReady (passes 0) \<and> shot (passes 0) = ShotTaken \<and> gemini (passes 0) = env"
    and "analyzeWithGemini env = None"
  then show "handleChallengeTiles info passes = (Value False, [Screenshot, Analyze])"
    using handleChallengeTiles_analysis(1) [of passes info] by simp
qed

text \<open>
  The theorem on an answer that marks no tile and on an answer that does not parse.
\<close>

lemma extractJson_noMatch: "extractJson noMatchResponse = Some noMatchJson"
  by (simp add: noMatchResponse_def extractJson_def betweenFences_def js_split_def fence_def
      noMatchJson_def quote_def js_trim_def js_space_def numeral_3_eq_3)

lemma analyze_noMatch: "analyzeWithGemini noMatchAnswer = Some []"
  by (simp add: analyzeWithGemini_def noMatchAnswer_def extractJson_noMatch parseNoMatch_def
      objectEntries_def has_match_def)

lemma analyze_garbled: "analyzeWithGemini garbledAnswer = None"
  by (simp add: analyzeWithGemini_def garbledAnswer_def extractJson_def fence_def
      numeral_3_eq_3 parseNoMatch_def noMatchJson_def)

lemma tiles_noMatch:
  "handleChallengeTiles info (passesWith noMatchAnswer) = (Value True, [Screenshot, Analyze])"
  using handleChallengeTiles_analysis(2) [of "passesWith noMatchAnswer" info]
  by (simp add: passesWith_def analyze_noMatch)

lemma tiles_garbled:
  "handleChallengeTiles info (passesWith garbledAnswer) = (Value False, [Screenshot, Analyze])"
  using handleChallengeTiles_analysis(1) [of "passesWith garbledAnswer" info]
  by (simp add: passesWith_def analyze_garbled)

theorem tile_analysis_null_or_empty_witness:
  "analyzeWithGemini noMatchAnswer = Some [] \<and>
   handleChallengeTiles carsPrompt (passesWith noMatchAnswer) = (Value True, [Screenshot, Analyze]) \<and>
   analyzeWithGemini garbledAnswer = None \<and>
   handleChallengeTiles carsPrompt (passesWith garbledAnswer) = (Value False, [Screenshot, Analyze])"
proof -
  note inst1 = tile_analysis_null_or_empty [of noMatchAnswer noMatchResponse noMatchJson
      "JObject [(''[1,1]'', JObject [(''has_match'', JBool False)])]"
      "[(''[1,1]'', JObject [(''has_match'', JBool False)])]"
      "passesWith noMatchAnswer" carsPrompt]
  have a: "analyzeWithGemini noMatchAnswer = Some []"
    using inst1 extractJson_noMatch
    by (simp add: noMatchAnswer_def parseNoMatch_def objectEntries_def has_match_def)
  have b: "handleChallengeTiles carsPrompt (passesWith noMatchAnswer) = (Value True, [Screenshot, Analyze])"
    using inst1 a by (simp add: passesWith_def)
  note inst2 = tile_analysis_null_or_empty [of garbledAnswer "[]" "[]" JNull "[]"
      "passesWith garbledAnswer" carsPrompt]
  have e: "extractJson ''I cannot help with that'' = Some ''I cannot help with that''"
    by (simp add: extractJson_def fence_def numeral_3_eq_3)
  have p: "parseNoMatch ''I cannot help with that'' = None"
    by (simp add: parseNoMatch_def noMatchJson_def)
  have c: "analyzeWithGemini garbledAnswer = None"
    using inst2 e p by (simp add: garbledAnswer_def)
  have d: "handleChallengeTiles carsPrompt (passesWith garbledAnswer) = (Value False, [Screenshot, Analyze])"
    using inst2 c by (simp add: passesWith_def)
  from a b c d show ?thesis by simp
qed

section \<open>Properties of the tile loop\<close>

lemma clickTiles_only_clicks:
  "a \<in> set (snd (clickTiles envs info i coords)) \<Longrightarrow> \<exists>n. a = ClickTile n"
proof (induction coords arbitrary: i)
  case Nil
  then show ?case by simp
next
  case (Cons coord coords)
  obtain clicked indices where c: "clickTile (envs i) coord info = (clicked, indices)"
    by (cases "clickTile (envs i) coord info")
  obtain ok tr where r: "clickTiles envs info (i + 1) coords = (ok, tr)"
    by (cases "clickTiles envs info (i + 1) coords")
  from Cons.prems c r have "a \<in> ClickTile ` set indices \<or> a \<in> set tr"
    by (auto split: if_splits)
  then show ?case
  proof
    assume "a \<in> ClickTile ` set indices"
    then show ?thesis by auto
  next
    assume "a \<in> set tr"
    then show ?thesis using Cons.IH [of "i + 1"] r by simp
  qed
qed











section \<open>Properties of the round loop and of the verification\<close>

lemma race_last_settles: "race (ps @ [Settles t v]) \<noteq> Never"
  by (induction ps) (auto split: promise.splits)

lemma verifyRace3_settles: "verifyRace3 r \<noteq> Never"
  using race_last_settles [of "[andThen TokenResult (tokenFound r),
    andThen ChallengeResult (challengeChanged r)]" 5000 TimeoutResult]
  by (simp add: verifyRace3_def)

lemma verify_stops:
  assumes "\<not> verifyContinues (calls k)"
  shows "\<exists>y. verifyChallenge_from calls k = Some y"
proof -
  obtain t res where r: "verifyRace3 (calls k) = Settles t res"
    using verifyRace3_settles [of "calls k"] by (cases "verifyRace3 (calls k)") auto
  show ?thesis
    using assms r
    by (subst verifyChallenge_from.simps)
       (auto simp: verifyContinues_def Let_def
             split: verify_check.splits race_result.splits prod.splits outcome.splits)
qed

lemma verify_continues:
  assumes "verifyContinues (calls k)" and "verifyChallenge_from calls (k + 1) = Some y"
  shows "\<exists>y'. verifyChallenge_from calls k = Some y'"
  using assms
  by (subst verifyChallenge_from.simps)
     (auto simp: verifyContinues_def Let_def split: prod.splits outcome.splits)

lemma verify_returns:
  assumes "\<not> verifyContinues (calls n)"
  shows "k \<le> n \<Longrightarrow> \<exists>y. verifyChallenge_from calls k = Some y"
proof (induction "n - k" arbitrary: k)
  case 0
  then have "k = n" by simp
  with assms verify_stops show ?case by blast
next
  case (Suc m)
  then have "m = n - (k + 1)" and "k + 1 \<le> n" by simp_all
  then obtain y where y: "verifyChallenge_from calls (k + 1) = Some y"
    using Suc.hyps(1) by blast
  show ?case
  proof (cases "verifyContinues (calls k)")
    case True
    with y verify_continues show ?thesis by blast
  next
    case False
    with verify_stops show ?thesis by blast
  qed
qed

lemma challengeRound_returns:
  assumes "\<not> verifyContinues (roundVerify r n)"
  shows "\<exists>y. challengeRound r = Some y"
proof -
  obtain y where "verifyChallenge (roundVerify r) = Some y"
    using verify_returns [of "roundVerify r" n 0] assms by (auto simp: verifyChallenge_def)
  then show ?thesis
    by (auto simp: challengeRound_def split: prod.splits outcome.splits option.splits)
qed

text \<open>No function called inside an iteration records the start of an iteration.\<close>

lemma refreshChallenge_trace: "RoundStart \<notin> set (snd (refreshChallenge r))"
  by (cases r) (simp_all add: refreshChallenge_def)

lemma getCurrentChallenge_trace: "RoundStart \<notin> set (snd (getCurrentChallenge c r))"
  using refreshChallenge_trace [of r]
  by (auto simp: getCurrentChallenge_def split: current_outcome.splits prod.splits outcome.splits)

lemma takeScreenshotAndAnalyze_trace: "RoundStart \<notin> set (snd (takeScreenshotAndAnalyze r))"
  by (simp add: takeScreenshotAndAnalyze_def split: shot_outcome.splits)

lemma clickTiles_trace:
  "clickTiles envs info i coords = (ok, tr) \<Longrightarrow> RoundStart \<notin> set tr"
  using clickTiles_only_clicks [of RoundStart envs info i coords] by auto

lemma takeScreenshotAndAnalyze_trace':
  "takeScreenshotAndAnalyze r = (res, tr) \<Longrightarrow> RoundStart \<notin> set tr"
  using takeScreenshotAndAnalyze_trace [of r] by simp

lemma handleChallengeTiles_from_unfold:
  assumes "\<And>res tr. handleChallengeTiles_from info passes (k + 1) = (res, tr) \<Longrightarrow>
             k + 1 < maxDynamicIterations \<Longrightarrow> RoundStart \<notin> set tr"
  shows "RoundStart \<notin> set (snd (handleChallengeTiles_from info passes k))"
  using assms
  by (subst handleChallengeTiles_from.simps)
     (auto simp: Let_def
           dest: clickTiles_trace takeScreenshotAndAnalyze_trace'
           split: prod.splits outcome.splits option.splits)

lemma handleChallengeTiles_from_trace:
  "RoundStart \<notin> set (snd (handleChallengeTiles_from info passes k))"
proof (induction "maxDynamicIterations - k" arbitrary: k)
  case 0
  show ?case
  proof (rule handleChallengeTiles_from_unfold)
    fix res tr
    assume "k + 1 < maxDynamicIterations"
    with 0 show "RoundStart \<notin> set tr" by simp
  qed
next
  case (Suc n)
  show ?case
  proof (rule handleChallengeTiles_from_unfold)
    fix res tr
    assume r: "handleChallengeTiles_from info passes (k + 1) = (res, tr)"
    from Suc.hyps(2) have "n = maxDynamicIterations - (k + 1)" by simp
    from Suc.hyps(1) [OF this] r show "RoundStart \<notin> set tr" by simp
  qed
qed

lemma handleChallengeTiles_trace: "RoundStart \<notin> set (snd (handleChallengeTiles info passes))"
  by (simp add: handleChallengeTiles_def handleChallengeTiles_from_trace)

lemma handleChallengeTiles_trace':
  "handleChallengeTiles info passes = (res, tr) \<Longrightarrow> RoundStart \<notin> set tr"
  using handleChallengeTiles_trace [of info passes] by simp

lemma refreshChallenge_trace':
  "refreshChallenge r = (res, tr) \<Longrightarrow> RoundStart \<notin> set tr"
  using refreshChallenge_trace [of r] by simp

lemma verifyChallenge_from_trace:
  assumes a: "verifyChallenge_from calls k = Some y"
  shows "RoundStart \<notin> set (snd y)"
proof (rule verifyChallenge_from.raw_induct
    [where P = "\<lambda>calls k y. RoundStart \<notin> set (snd y)", OF _ a])
  fix f :: "(nat \<Rightarrow> verify_round) \<Rightarrow> nat \<Rightarrow> (string option outcome \<times> action list) option"
    and calls :: "nat \<Rightarrow> verify_round" and k :: nat and y :: "string option outcome \<times> action list"
  assume IH: "\<And>calls k y. f calls k = Some y \<Longrightarrow> RoundStart \<notin> set (snd y)"
    and body: "(let r = calls k in
      if \<not> verifyFrame r then Some (Value None, [])
      else if \<not> verifyTilesReady r then Some (Value None, [])
      else case verifyCheck r of
        CheckRejects \<Rightarrow> Some (Thrown, [])
      | NotReady \<Rightarrow> Some (Value None, [])
      | NoVerifyButton \<Rightarrow> Some (Value None, [])
      | ClickRejects \<Rightarrow> Some (Thrown, [])
      | Clicked \<Rightarrow>
          (case verifyRace3 r of
             Never \<Rightarrow> None
           | Settles t (TokenResult token) \<Rightarrow> Some (Value (Some token), [ClickVerify])
           | Settles t TimeoutResult \<Rightarrow> Some (Value None, [ClickVerify])
           | Settles t (ChallengeResult newChallengeInfo) \<Rightarrow>
               if \<not> hasCorrectFormat newChallengeInfo then
                 (case refreshChallenge (verifyRefresh r) of
                    (Thrown, tr) \<Rightarrow> Some (Thrown, ClickVerify # tr)
                  | (Value u, tr) \<Rightarrow> Some (Value None, ClickVerify # tr))
               else
                 (case handleChallengeTiles newChallengeInfo (newTiles r) of
                    (Thrown, tr) \<Rightarrow> Some (Thrown, ClickVerify # tr)
                  | (Value success, tr) \<Rightarrow>
                      if \<not> success then Some (Value None, ClickVerify # tr)
                      else Option.bind (f calls (k + 1))
                             (\<lambda>(res, tr'). Some (res, ClickVerify # tr @ tr'))))) = Some y"
  show "RoundStart \<notin> set (snd y)"
    using body IH [of calls "k + 1"]
    by (auto simp: Let_def bind_eq_Some_conv
             split: if_splits verify_check.splits promise.splits race_result.splits
                    prod.splits outcome.splits
             dest: handleChallengeTiles_trace' refreshChallenge_trace')
qed

lemma challengeRound_trace:
  assumes "challengeRound r = Some (res, tr)"
  shows "RoundStart \<notin> set tr"
proof -
  have v: "\<And>x tr. verifyChallenge (roundVerify r) = Some (x, tr) \<Longrightarrow> RoundStart \<notin> set tr"
    using verifyChallenge_from_trace [of "roundVerify r" 0] by (simp add: verifyChallenge_def)
  have g: "\<And>x tr. getCurrentChallenge (current r) (currentRefresh r) = (x, tr) \<Longrightarrow>
             RoundStart \<notin> set tr"
    using getCurrentChallenge_trace [of "current r" "currentRefresh r"] by simp
  show ?thesis
    using assms
    by (auto simp: challengeRound_def
             split: prod.splits outcome.splits option.splits if_splits;
        blast dest: g handleChallengeTiles_trace' v)
qed

lemma solveChallengeLoop_from_returns:
  assumes ret: "\<forall>i<4. \<exists>y. challengeRound (rs i) = Some y"
  shows "attempts \<le> 4 \<Longrightarrow>
         \<exists>res tr. solveChallengeLoop_from rs attempts = Some (res, tr) \<and>
           count_list tr RoundStart \<le> 4 - attempts \<and>
           ((\<forall>i<4. roundFails (rs i)) \<longrightarrow>
              res = Value None \<and> count_list tr RoundStart = 4 - attempts)"
proof (induction "4 - attempts" arbitrary: attempts)
  case 0
  then have "attempts = 4" by simp
  then show ?case
    by (subst solveChallengeLoop_from.simps) (simp add: maxAttempts_def)
next
  case (Suc n)
  then have lt: "attempts < 4" and n: "n = 4 - (attempts + 1)" and le: "attempts + 1 \<le> 4"
    by simp_all
  obtain res0 tr0 where r0: "challengeRound (rs attempts) = Some (res0, tr0)"
    using ret lt by fastforce
  have c0: "count_list tr0 RoundStart = 0"
    using challengeRound_trace [OF r0] by (simp add: count_list_0_iff)
  obtain res' tr' where rec: "solveChallengeLoop_from rs (attempts + 1) = Some (res', tr')"
    and bound: "count_list tr' RoundStart \<le> 4 - (attempts + 1)"
    and fails: "(\<forall>i<4. roundFails (rs i)) \<longrightarrow>
                  res' = Value None \<and> count_list tr' RoundStart = 4 - (attempts + 1)"
    using Suc.hyps(1) [OF n le] by blast
  show ?case
  proof (cases res0)
    case Thrown
    have "\<not> roundFails (rs attempts)"
      using r0 Thrown by (simp add: roundFails_def)
    with lt have "\<not> (\<forall>i<4. roundFails (rs i))" by blast
    moreover have "solveChallengeLoop_from rs attempts = Some (Thrown, RoundStart # tr0)"
      using lt r0 Thrown by (subst solveChallengeLoop_from.simps) (simp add: maxAttempts_def)
    ultimately show ?thesis using c0 lt by auto
  next
    case (Value token)
    show ?thesis
    proof (cases "truthy token")
      case True
      have "\<not> roundFails (rs attempts)"
        using r0 Value True by (simp add: roundFails_def)
      with lt have "\<not> (\<forall>i<4. roundFails (rs i))" by blast
      moreover have "solveChallengeLoop_from rs attempts = Some (Value token, RoundStart # tr0)"
        using lt r0 Value True
        by (subst solveChallengeLoop_from.simps) (simp add: maxAttempts_def)
      ultimately show ?thesis using c0 lt by auto
    next
      case False
      have "solveChallengeLoop_from rs attempts = Some (res', RoundStart # tr0 @ tr')"
        using lt r0 Value False rec
        by (subst solveChallengeLoop_from.simps) (simp add: maxAttempts_def)
      then show ?thesis using c0 lt bound fails by auto
    qed
  qed
qed

text \<open>
  C2 (amended). Whenever, in each of the four iterations, the chain of new challenges
  that follow a verify click ends (some call of \<open>verifyChallenge\<close> in the chain does not
  go on to call itself), the round loop returns after at most four iterations: with a
  token, with the error of a rejected page call, or, when every iteration fails, with
  \<open>null\<close> after exactly four iterations.
\<close>

theorem round_loop_bounded:
  assumes "\<forall>i<4. \<exists>n. \<not> verifyContinues (roundVerify (rs i) n)"
  shows "\<exists>res tr. solveChallengeLoop rs = Some (res, tr) \<and>
           count_list tr RoundStart \<le> 4 \<and>
           ((\<forall>i<4. roundFails (rs i)) \<longrightarrow>
              res = Value None \<and> count_list tr RoundStart = 4)"
proof -
  have "\<forall>i<4. \<exists>y. challengeRound (rs i) = Some y"
    using assms challengeRound_returns by blast
  from solveChallengeLoop_from_returns [OF this, of 0] show ?thesis
    by (simp add: solveChallengeLoop_def)
qed

text \<open>
  C2 as the specification states it fails on a page that answers every verify click with a new
  challenge: \<open>verifyChallenge\<close> calls itself without end inside the first iteration, and
  the loop never returns.
\<close>

lemma endless_continues: "verifyContinues (endlessVerify k)"
  by (simp add: verifyContinues_def endlessVerify_def verifyRace3_def andThen_def
      busPrompt_def tiles_noMatch)

lemma endless_body:
  fixes f :: "(nat \<Rightarrow> verify_round) \<Rightarrow> nat \<Rightarrow> (string option outcome \<times> action list) option"
  shows "(let r = endlessVerify k in
      if \<not> verifyFrame r then Some (Value None, [])
      else if \<not> verifyTilesReady r then Some (Value None, [])
      else case verifyCheck r of
        CheckRejects \<Rightarrow> Some (Thrown, [])
      | NotReady \<Rightarrow> Some (Value None, [])
      | NoVerifyButton \<Rightarrow> Some (Value None, [])
      | ClickRejects \<Rightarrow> Some (Thrown, [])
      | Clicked \<Rightarrow>
          (case verifyRace3 r of
             Never \<Rightarrow> None
           | Settles t (TokenResult token) \<Rightarrow> Some (Value (Some token), [ClickVerify])
           | Settles t TimeoutResult \<Rightarrow> Some (Value None, [ClickVerify])
           | Settles t (ChallengeResult newChallengeInfo) \<Rightarrow>
               if \<not> hasCorrectFormat newChallengeInfo then
                 (case refreshChallenge (verifyRefresh r) of
                    (Thrown, tr) \<Rightarrow> Some (Thrown, ClickVerify # tr)
                  | (Value u, tr) \<Rightarrow> Some (Value None, ClickVerify # tr))
               else
                 (case handleChallengeTiles newChallengeInfo (newTiles r) of
                    (Thrown, tr) \<Rightarrow> Some (Thrown, ClickVerify # tr)
                  | (Value success, tr) \<Rightarrow>
                      if \<not> success then Some (Value None, ClickVerify # tr)
                      else Option.bind (f endlessVerify (k + 1))
                             (\<lambda>(res, tr'). Some (res, ClickVerify # tr @ tr')))))
     = Option.bind (f endlessVerify (k + 1))
         (\<lambda>(res, tr'). Some (res, ClickVerify # [Screenshot, Analyze] @ tr'))"
  by (simp add: endlessVerify_def verifyRace3_def andThen_def busPrompt_def tiles_noMatch)

lemma verify_endless: "verifyChallenge_from endlessVerify k = None"
proof (rule ccontr)
  assume "verifyChallenge_from endlessVerify k \<noteq> None"
  then obtain y where a: "verifyChallenge_from endlessVerify k = Some y" by auto
  have "endlessVerify \<noteq> endlessVerify"
  proof (rule verifyChallenge_from.raw_induct
      [where P = "\<lambda>calls k y. calls \<noteq> endlessVerify", OF _ a])
    fix f :: "(nat \<Rightarrow> verify_round) \<Rightarrow> nat \<Rightarrow> (string option outcome \<times> action list) option"
      and calls :: "nat \<Rightarrow> verify_round" and k :: nat
      and y :: "string option outcome \<times> action list"
    assume IH: "\<And>calls k y. f calls k = Some y \<Longrightarrow> calls \<noteq> endlessVerify"
      and body: "(let r = calls k in
      if \<not> verifyFrame r then Some (Value None, [])
      else if \<not> verifyTilesReady r then Some (Value None, [])
      else case verifyCheck r of
        CheckRejects \<Rightarrow> Some (Thrown, [])
      | NotReady \<Rightarrow> Some (Value None, [])
      | NoVerifyButton \<Rightarrow> Some (Value None, [])
      | ClickRejects \<Rightarrow> Some (Thrown, [])
      | Clicked \<Rightarrow>
          (case verifyRace3 r of
             Never \<Rightarrow> None
           | Settles t (TokenResult token) \<Rightarrow> Some (Value (Some token), [ClickVerify])
           | Settles t TimeoutResult \<Rightarrow> Some (Value None, [ClickVerify])
           | Settles t (ChallengeResult newChallengeInfo) \<Rightarrow>
               if \<not> hasCorrectFormat newChallengeInfo then
                 (case refreshChallenge (verifyRefresh r) of
                    (Thrown, tr) \<Rightarrow> Some (Thrown, ClickVerify # tr)
                  | (Value u, tr) \<Rightarrow> Some (Value None, ClickVerify # tr))
               else
                 (case handleChallengeTiles newChallengeInfo (newTiles r) of
                    (Thrown, tr) \<Rightarrow> Some (Thrown, ClickVerify # tr)
                  | (Value success, tr) \<Rightarrow>
                      if \<not> success then Some (Value None, ClickVerify # tr)
                      else Option.bind (f calls (k + 1))
                             (\<lambda>(res, tr'). Some (res, ClickVerify # tr @ tr'))))) = Some y"
    show "calls \<noteq> endlessVerify"
    proof
      assume c: "calls = endlessVerify"
      from body have "Option.bind (f endlessVerify (k + 1))
         (\<lambda>(res, tr'). Some (res, ClickVerify # [Screenshot, Analyze] @ tr')) = Some y"
        unfolding c endless_body .
      then obtain y' where "f endlessVerify (k + 1) = Some y'"
        by (auto simp: bind_eq_Some_conv)
      from IH [OF this] show False by simp
    qed
  qed
  then show False by simp
qed

theorem round_loop_counterexample: "solveChallengeLoop endlessRounds = None"
proof -
  have "challengeRound (endlessRounds 0) = None"
    by (simp add: challengeRound_def endlessRounds_def getCurrentChallenge_def carsPrompt_def
        tiles_noMatch verifyChallenge_def verify_endless)
  then show ?thesis
    unfolding solveChallengeLoop_def
    by (subst solveChallengeLoop_from.simps) (simp add: maxAttempts_def)
qed

text \<open>
  The theorem on four rounds in which the answer of the model never parses: four
  iterations, each with one screenshot and one analysis, and \<open>null\<close>.
\<close>

lemma garbled_round: "challengeRound (garbledRounds i) = Some (Value None, [Screenshot, Analyze])"
  by (simp add: challengeRound_def garbledRounds_def getCurrentChallenge_def carsPrompt_def
      tiles_garbled)

lemma garbled_step:
  "solveChallengeLoop_from garbledRounds k =
     (if k < 4 then
        (case solveChallengeLoop_from garbledRounds (Suc k) of
           None \<Rightarrow> None
         | Some (res, tr) \<Rightarrow> Some (res, [RoundStart, Screenshot, Analyze] @ tr))
      else Some (Value None, []))"
  by (subst solveChallengeLoop_from.simps)
     (simp add: maxAttempts_def garbled_round truthy_def split: option.splits)

theorem round_loop_bounded_witness:
  "solveChallengeLoop garbledRounds =
     Some (Value None, [RoundStart, Screenshot, Analyze, RoundStart, Screenshot, Analyze,
                        RoundStart, Screenshot, Analyze, RoundStart, Screenshot, Analyze])"
proof -
  have h: "\<forall>i<4. \<exists>n. \<not> verifyContinues (roundVerify (garbledRounds i) n)"
    by (simp add: garbledRounds_def neverReadyVerify_def verifyContinues_def)
  have f: "\<forall>i<4. roundFails (garbledRounds i)"
    by (simp add: roundFails_def garbled_round truthy_def)
  from round_loop_bounded [OF h] f obtain tr where
    r: "solveChallengeLoop garbledRounds = Some (Value None, tr)"
    and c: "count_list tr RoundStart = 4"
    by blast
  have 4: "solveChallengeLoop_from garbledRounds (Suc (Suc (Suc (Suc 0)))) = Some (Value None, [])"
    by (subst garbled_step) simp
  have 3: "solveChallengeLoop_from garbledRounds (Suc (Suc (Suc 0))) =
      Some (Value None, [RoundStart, Screenshot, Analyze])"
    by (subst garbled_step) (simp add: 4)
  have 2: "solveChallengeLoop_from garbledRounds (Suc (Suc 0)) =
      Some (Value None, [RoundStart, Screenshot, Analyze, RoundStart, Screenshot, Analyze])"
    by (subst garbled_step) (simp add: 3)
  have 1: "solveChallengeLoop_from garbledRounds (Suc 0) =
      Some (Value None, [RoundStart, Screenshot, Analyze, RoundStart, Screenshot, Analyze,
                         RoundStart, Screenshot, Analyze])"
    by (subst garbled_step) (simp add: 2)
  have 0: "solveChallengeLoop_from garbledRounds 0 =
      Some (Value None, [RoundStart, Screenshot, Analyze, RoundStart, Screenshot, Analyze,
                         RoundStart, Screenshot, Analyze, RoundStart, Screenshot, Analyze])"
    by (subst garbled_step) (simp add: 1)
  from r c 0 show ?thesis by (simp add: solveChallengeLoop_def)
qed

section \<open>Properties of the checkbox race\<close>

text \<open>
  C4. After the checkbox click the solver races the token against the opening of a
  challenge. In every run in which the token event settles first (the watcher fires it
  with a non-empty token only), the solver returns that token, and all it has done is
  the checkbox click and the clean-up of the watcher: it starts no round, takes no
  screenshot, runs no analysis and clicks no tile.
\<close>

theorem token_wins_race:
  assumes "captchaReady s" and "checkbox s = CheckboxClicked"
    and "tokenAfterClick s = Settles t token" and "token \<noteq> []"
    and "settlesFirst (tokenAfterClick s) (challengeOpened s)"
  shows "solveCaptchaChallenge s = Some (Some token, [ClickCheckbox, Cleanup])"
proof -
  have "race [andThen TokenResult (tokenAfterClick s),
              andThen ChallengeResult (challengeOpened s)] = Settles t (TokenResult token)"
    using assms(3,5)
    by (cases "challengeOpened s") (simp_all add: settlesFirst_def andThen_def)
  then have "handleCheckboxClick s = Some (Some token, [ClickCheckbox])"
    using assms(2) by (simp add: handleCheckboxClick_def)
  then show ?thesis
    using assms(1,4) by (simp add: solveCaptchaChallenge_def truthy_def)
qed

text \<open>The theorem on the session whose token is found at 50 ms and whose challenge opens at 300 ms.\<close>

theorem token_wins_race_witness:
  "settlesFirst (tokenAfterClick tokenFirst) (challengeOpened tokenFirst) \<and>
   solveCaptchaChallenge tokenFirst = Some (Some ''03AGdBq24PBgq'', [ClickCheckbox, Cleanup])"
proof -
  have a: "captchaReady tokenFirst" "checkbox tokenFirst = CheckboxClicked"
    "tokenAfterClick tokenFirst = Settles 50 ''03AGdBq24PBgq''" "''03AGdBq24PBgq'' \<noteq> []"
    "settlesFirst (tokenAfterClick tokenFirst) (challengeOpened tokenFirst)"
    by (simp_all add: tokenFirst_def settlesFirst_def)
  from token_wins_race [OF a] a(5) show ?thesis by simp
qed

section \<open>Properties of the audio loop\<close>

lemma downloadLoop_actions:
  "a \<in> set (snd (downloadLoop ds n)) \<Longrightarrow> a = Download \<or> a = Sleep 1000"
proof (induction "maxDownloadAttempts - n" arbitrary: n a)
  case 0
  then show ?case
    by (subst (asm) downloadLoop.simps) simp
next
  case (Suc m)
  have rec: "\<And>r tr b. downloadLoop ds (Suc n) = (r, tr) \<Longrightarrow> b \<in> set tr \<Longrightarrow>
               b = Download \<or> b = Sleep 1000"
    using Suc.hyps(1) [of "n + 1"] Suc.hyps(2) by simp
  from Suc.prems show ?case
    by (subst (asm) downloadLoop.simps)
       (auto split: if_splits download.splits prod.splits; blast dest: rec)
qed

lemma downloadAndTranscribeAudio_actions:
  assumes "downloadAndTranscribeAudio env = (res, tr)"
  shows "AudioAttempt \<notin> set tr"
proof
  assume "AudioAttempt \<in> set tr"
  with assms have "AudioAttempt \<in> set (snd (downloadLoop (downloads env) 0))"
    by (auto simp: downloadAndTranscribeAudio_def
             split: prod.splits download_exit.splits option.splits)
  with downloadLoop_actions show False by blast
qed

lemma audioAttempt_actions:
  assumes "audioAttempt n a = Some (x, tr)"
  shows "AudioAttempt \<notin> set tr"
  using assms
  by (auto simp: audioAttempt_def Let_def
           split: if_splits promise.splits option.splits audio_result.splits
                  verify_result.splits prod.splits;
      blast dest: downloadAndTranscribeAudio_actions)

lemma blockedAttempt_returns:
  assumes "blockedAttempt n a"
  shows "\<exists>tr. audioAttempt n a = Some (Return None, tr)"
  using assms
  by (auto simp: blockedAttempt_def audioAttempt_def Let_def split: prod.splits)

lemma audioLoop_blocked_from:
  assumes k: "k < 3"
    and cont: "\<forall>j<k. \<exists>tr. audioAttempt (j + 1) (attempts j) = Some (Continue, tr)"
    and blocked: "blockedAttempt (k + 1) (attempts k)"
  shows "j \<le> k \<Longrightarrow>
         \<exists>tr. audioLoop attempts j = Some (None, tr) \<and> count_list tr AudioAttempt = k + 1 - j"
proof (induction "k - j" arbitrary: j)
  case 0
  then have j: "j = k" by simp
  obtain tr where a: "audioAttempt (k + 1) (attempts k) = Some (Return None, tr)"
    using blockedAttempt_returns [OF blocked] by blast
  have "count_list tr AudioAttempt = 0"
    using audioAttempt_actions [OF a] by (simp add: count_list_0_iff)
  moreover have "audioLoop attempts k = Some (None, AudioAttempt # tr)"
    using k a by (subst audioLoop.simps) (simp add: maxAudioAttempts_def)
  ultimately show ?case using j by simp
next
  case (Suc m)
  then have lt: "j < k" and m: "m = k - (j + 1)" and le: "j + 1 \<le> k" by simp_all
  obtain tr where a: "audioAttempt (j + 1) (attempts j) = Some (Continue, tr)"
    using cont lt by blast
  have c: "count_list tr AudioAttempt = 0"
    using audioAttempt_actions [OF a] by (simp add: count_list_0_iff)
  obtain tr' where rec: "audioLoop attempts (j + 1) = Some (None, tr')"
    and c': "count_list tr' AudioAttempt = k + 1 - (j + 1)"
    using Suc.hyps(1) [OF m le] by blast
  have "audioLoop attempts j = Some (None, AudioAttempt # tr @ tr')"
    using k lt a rec by (subst audioLoop.simps) (simp add: maxAudioAttempts_def)
  then show ?case using c c' lt by simp
qed

text \<open>
  C3. When the attempts before the \<open>k + 1\<close>-th go on to the next iteration and a blocked
  signal is observed in the \<open>k + 1\<close>-th (after the audio button or after the verify
  click), the loop returns \<open>null\<close> and has made exactly \<open>k + 1\<close> attempts, whichever of
  the three attempts it is: none of the remaining attempts is made.
\<close>

theorem blocked_ends_session:
  assumes "k < 3"
    and "\<forall>j<k. \<exists>tr. audioAttempt (j + 1) (attempts j) = Some (Continue, tr)"
    and "blockedAttempt (k + 1) (attempts k)"
  shows "\<exists>tr. audioLoop attempts 0 = Some (None, tr) \<and> count_list tr AudioAttempt = k + 1"
  using audioLoop_blocked_from [OF assms, of 0] by simp

text \<open>
  The theorem on a session blocked after the audio button in its second attempt, and on
  a session blocked after the verify click in its first.
\<close>

lemma thirdTimeLucky_transcribes:
  "downloadAndTranscribeAudio thirdTimeLucky =
     (Some ''seven two'', [Download, Sleep 1000, Download, Sleep 1000, Download, Transcribe])"
proof -
  have "downloadLoop (downloads thirdTimeLucky) 0 =
      (Break ''mp3'', concat (replicate 2 [Download, Sleep 1000]) @ [Download])"
    by (rule downloadLoop_success) (simp_all add: thirdTimeLucky_def downloadFails_def)
  then show ?thesis
    by (simp add: downloadAndTranscribeAudio_def numeral_2_eq_2 thirdTimeLucky_def
        lastTextMatch_example)
qed

lemma needMore_continues:
  "audioAttempt (Suc 0) needMoreAttempt =
     Some (Continue, [ClickAudioButton, Download, Sleep 1000, Download, Sleep 1000, Download,
                      Transcribe, TypeResponse ''seven two'', ClickVerify])"
  by (simp add: audioAttempt_def needMoreAttempt_def audioRace_def verifyRace_def andThen_def
      truthy_def thirdTimeLucky_transcribes)

lemma blockedAtButton_returns:
  "n \<noteq> Suc 0 \<Longrightarrow> audioAttempt n blockedAtButton = Some (Return None, [])"
  by (simp add: audioAttempt_def blockedAtButton_def audioRace_def andThen_def truthy_def)

lemma blockedAtVerify_returns:
  "audioAttempt (Suc 0) blockedAtVerify =
     Some (Return None, [ClickAudioButton, Download, Sleep 1000, Download, Sleep 1000, Download,
                         Transcribe, TypeResponse ''seven two'', ClickVerify])"
  by (simp add: audioAttempt_def blockedAtVerify_def audioRace_def verifyRace_def andThen_def
      truthy_def thirdTimeLucky_transcribes)

theorem blocked_ends_session_witness:
  "blockedAttempt 2 blockedAtButton \<and> blockedAttempt 1 blockedAtVerify \<and>
   audioLoop blockedSecond 0 =
     Some (None, [AudioAttempt, ClickAudioButton, Download, Sleep 1000, Download, Sleep 1000,
                  Download, Transcribe, TypeResponse ''seven two'', ClickVerify,
                  AudioAttempt]) \<and>
   audioLoop blockedFirst 0 =
     Some (None, [AudioAttempt, ClickAudioButton, Download, Sleep 1000, Download, Sleep 1000,
                  Download, Transcribe, TypeResponse ''seven two'', ClickVerify])"
proof -
  have b2: "blockedAttempt 2 blockedAtButton"
    by (simp add: blockedAttempt_def blockedAtButton_def audioRace_def andThen_def truthy_def)
  have b1: "blockedAttempt 1 blockedAtVerify"
    by (simp add: blockedAttempt_def blockedAtVerify_def audioRace_def verifyRace_def
        andThen_def truthy_def thirdTimeLucky_transcribes)
  have c: "\<forall>j<1. \<exists>tr. audioAttempt (j + 1) (blockedSecond j) = Some (Continue, tr)"
    by (simp add: blockedSecond_def needMore_continues)
  have "blockedAttempt (1 + 1) (blockedSecond 1)"
    using b2 by (simp add: blockedSecond_def numeral_2_eq_2)
  from blocked_ends_session [of 1 blockedSecond, OF _ c this]
  obtain tr where s1: "audioLoop blockedSecond 0 = Some (None, tr)"
    and "count_list tr AudioAttempt = 1 + 1" by auto
  have "blockedAttempt (0 + 1) (blockedFirst 0)"
    using b1 by (simp add: blockedFirst_def)
  from blocked_ends_session [of 0 blockedFirst, OF _ _ this]
  obtain tr' where s2: "audioLoop blockedFirst 0 = Some (None, tr')"
    and "count_list tr' AudioAttempt = 0 + 1" by auto
  have e: "blockedSecond 0 = needMoreAttempt" "blockedSecond (Suc 0) = blockedAtButton"
    "blockedFirst 0 = blockedAtVerify"
    by (simp_all add: blockedSecond_def blockedFirst_def)
  have l1: "audioLoop blockedSecond (Suc 0) = Some (None, [AudioAttempt])"
    by (subst audioLoop.simps)
       (simp add: maxAudioAttempts_def e blockedAtButton_returns)
  have l0: "audioLoop blockedSecond 0 =
     Some (None, [AudioAttempt, ClickAudioButton, Download, Sleep 1000, Download, Sleep 1000,
                  Download, Transcribe, TypeResponse ''seven two'', ClickVerify,
                  AudioAttempt])"
    by (subst audioLoop.simps)
       (simp add: maxAudioAttempts_def e needMore_continues l1)
  have f0: "audioLoop blockedFirst 0 =
     Some (None, [AudioAttempt, ClickAudioButton, Download, Sleep 1000, Download, Sleep 1000,
                  Download, Transcribe, TypeResponse ''seven two'', ClickVerify])"
    by (subst audioLoop.simps)
       (simp add: maxAudioAttempts_def e blockedAtVerify_returns)
  from b1 b2 s1 s2 l0 f0 show ?thesis by simp
qed

section \<open>Properties of the detectors and of the polling loops\<close>











end
